theory Spec2Isabelle
  imports Complex_Main
begin

section \<open>JavaScript strings\<close>

text \<open>
  A JavaScript string is modelled by a \<^typ>\<open>string\<close> whose characters are the code units
  of the string; the model covers strings whose code units are below 256. Such a string holds
  no surrogate: it is well-formed, and UTF-8 carries it unchanged. The functions below
  are \<^verbatim>\<open>String.prototype.trim\<close>, \<^verbatim>\<open>toLowerCase\<close>, \<^verbatim>\<open>split\<close> with a
  one-character separator and \<^verbatim>\<open>includes\<close> (here \<open>includes_str\<close>).
\<close>

definition isWhiteSpace :: "char \<Rightarrow> bool" where
  \<comment> \<open>TAB, LF, VT, FF, CR, SPACE and NBSP: white space and line terminators below 256\<close>
  "isWhiteSpace c = (c \<in> {CHR 0x09, CHR 0x0A, CHR 0x0B, CHR 0x0C, CHR 0x0D, CHR 0x20, CHR 0xA0})"

definition trim :: "string \<Rightarrow> string" where
  "trim s = rev (dropWhile isWhiteSpace (rev (dropWhile isWhiteSpace s)))"

definition lowerChar :: "char \<Rightarrow> char" where
  \<comment> \<open>A to Z, and the upper-case letters of Latin-1 (0xC0 to 0xDE without the multiplication sign)\<close>
  "lowerChar c =
     (let n = of_char c :: nat
      in if (65 \<le> n \<and> n \<le> 90) \<or> (192 \<le> n \<and> n \<le> 222 \<and> n \<noteq> 215)
         then char_of (n + 32) else c)"

definition toLowerCase :: "string \<Rightarrow> string" where
  "toLowerCase s = map lowerChar s"

fun startsWith :: "string \<Rightarrow> string \<Rightarrow> bool" where
  "startsWith s [] = True"
| "startsWith [] (t # ts) = False"
| "startsWith (c # cs) (t # ts) = (c = t \<and> startsWith cs ts)"

fun includes_str :: "string \<Rightarrow> string \<Rightarrow> bool" where
  "includes_str [] t = (t = [])"
| "includes_str (c # cs) t = (startsWith (c # cs) t \<or> includes_str cs t)"

fun split :: "char \<Rightarrow> string \<Rightarrow> string list" where
  "split sep [] = [[]]"
| "split sep (c # cs) =
     (if c = sep then [] # split sep cs
      else (case split sep cs of [] \<Rightarrow> [[c]] | l # ls \<Rightarrow> (c # l) # ls))"

definition newline :: char where
  "newline = CHR 0x0A"

section \<open>Values of the planner's reply\<close>

text \<open>
  The value that \<^verbatim>\<open>JSON.parse\<close> returns. An object keeps its members in the order of
  the text; a later member with the same key replaces an earlier one when a property is read.
\<close>

datatype json =
    JNull
  | JBool bool
  | JNum rat
  | JStr string
  | JArr "json list"
  | JObj "(string \<times> json) list"

text \<open>Reading a property of an object: \<^verbatim>\<open>undefined\<close> is \<^term>\<open>None\<close>.\<close>

definition getProp :: "(string \<times> json) list \<Rightarrow> string \<Rightarrow> json option" where
  "getProp members k = map_of (rev members) k"

text \<open>The values that count as true in a condition.\<close>

fun truthy :: "json \<Rightarrow> bool" where
  "truthy JNull = False"
| "truthy (JBool b) = b"
| "truthy (JNum n) = (n \<noteq> 0)"
| "truthy (JStr s) = (s \<noteq> [])"
| "truthy (JArr xs) = True"
| "truthy (JObj ms) = True"

section \<open>Errors, paths and the file system\<close>

datatype errno =
    EEXIST | ENOTDIR | EISDIR | ENOENT | EBUSY | ERR_INVALID_ARG_VALUE
  | ENAMETOOLONG | EACCES | EPERM | EROFS | ENOSPC

text \<open>
  An absolute path is the list of its components: \<^verbatim>\<open>/a/b\<close> is \<^term>\<open>[''a'', ''b'']\<close>
  and the root is \<^term>\<open>[] :: string list\<close>.
\<close>

type_synonym path = "string list"

datatype error =
    ExecError string string  \<comment> \<open>the command and its stderr: the error \<^verbatim>\<open>exec\<close> hands to the callback\<close>
  | FsError errno path
  | TypeError
  | SyntaxError  \<comment> \<open>thrown by \<^verbatim>\<open>JSON.parse\<close>\<close>
  | EndpointError  \<comment> \<open>thrown by the completion call\<close>

text \<open>
  The file system is that of a POSIX system, as Node's \<^verbatim>\<open>fs\<close> functions see it: a tree of
  regular files, directories and special entries (a FIFO, a device, a socket: anything else
  an entry can be). A regular file holds the text that reading it as UTF-8 gives; writing a
  string of the model as UTF-8 and reading it back gives the same string. A special entry
  holds the text a read of it gives, and keeps it when it is written to (a read or a write
  that never returns is outside the model). Symbolic links are no entries of the model: a
  path stands for what the operating system resolves it to.

  Beyond the shape of the tree, the operating system can refuse an access for reasons of its
  own: a name or a path that is too long, a missing permission, a read-only or a full
  device, a name that the file system takes for one that exists, a link that leads nowhere.
  \<open>refuses fs a p\<close> is the error with which it refuses the access \<open>a\<close> to the path \<open>p\<close>, and
  \<^term>\<open>None\<close> where it does not refuse.
\<close>

datatype node = File string | Directory | Special string

datatype access = Lookup | Read | Create | Write | Remove

record filesys =
  tree :: "path \<rightharpoonup> node"
  refuses :: "access \<Rightarrow> path \<Rightarrow> errno option"

definition validPath :: "path \<Rightarrow> bool" where
  \<comment> \<open>Node refuses a path that holds a NUL character\<close>
  "validPath p = (\<forall>c \<in> set p. CHR 0x00 \<notin> set c)"

fun normalizeString :: "path \<Rightarrow> string list \<Rightarrow> path" where
  "normalizeString res [] = res"
| "normalizeString res (s # ss) =
     (if s = [] \<or> s = ''.'' then normalizeString res ss
      else if s = ''..'' then normalizeString (butlast res) ss
      else normalizeString (res @ [s]) ss)"

definition isAbsolute :: "string \<Rightarrow> bool" where
  "isAbsolute p = (case p of [] \<Rightarrow> False | c # cs \<Rightarrow> c = CHR ''/'')"

definition resolve :: "path \<Rightarrow> string \<Rightarrow> path" where
  \<comment> \<open>\<^verbatim>\<open>path.resolve(currentDir, p)\<close> on POSIX, \<open>currentDir\<close> being absolute and normalised\<close>
  "resolve cwd p = normalizeString (if isAbsolute p then [] else cwd) (split CHR ''/'' p)"

definition dirname :: "path \<Rightarrow> path" where
  "dirname p = butlast p"

definition path_text :: "path \<Rightarrow> string" where
  "path_text p = (if p = [] then ''/'' else concat (map (\<lambda>c. CHR ''/'' # c) p))"

definition ancestors :: "path \<Rightarrow> path list" where
  \<comment> \<open>the proper ancestors of a path, the root first\<close>
  "ancestors p = map (\<lambda>n. take n p) [0..<length p]"

definition existsSync :: "filesys \<Rightarrow> path \<Rightarrow> bool" where
  \<comment> \<open>\<^verbatim>\<open>false\<close> on every error\<close>
  "existsSync fs p = (validPath p \<and> refuses fs Lookup p = None \<and> tree fs p \<noteq> None)"

definition lstatSync_isDirectory :: "filesys \<Rightarrow> path \<Rightarrow> error + bool" where
  "lstatSync_isDirectory fs p =
     (if \<not> validPath p then Inl (FsError ERR_INVALID_ARG_VALUE p)
      else case refuses fs Lookup p of
             Some e \<Rightarrow> Inl (FsError e p)
           | None \<Rightarrow>
               (case tree fs p of
                  None \<Rightarrow> Inl (FsError ENOENT p)
                | Some Directory \<Rightarrow> Inr True
                | Some (File c) \<Rightarrow> Inr False
                | Some (Special c) \<Rightarrow> Inr False))"

fun mkdirs :: "filesys \<Rightarrow> path list \<Rightarrow> errno option \<times> filesys" where
  \<comment> \<open>the directories of the list, from the root down: the error that stops it, if any, and
      the file system it leaves (what was created before the error stays)\<close>
  "mkdirs fs [] = (None, fs)"
| "mkdirs fs (q # qs) =
     (case refuses fs Lookup q of
        Some e \<Rightarrow> (Some e, fs)
      | None \<Rightarrow>
          (case tree fs q of
             Some Directory \<Rightarrow> mkdirs fs qs
           | Some (File c) \<Rightarrow> (Some (if qs = [] then EEXIST else ENOTDIR), fs)
           | Some (Special c) \<Rightarrow> (Some (if qs = [] then EEXIST else ENOTDIR), fs)
           | None \<Rightarrow>
               (case refuses fs Create q of
                  Some e \<Rightarrow> (Some e, fs)
                | None \<Rightarrow> mkdirs (fs\<lparr>tree := (tree fs)(q \<mapsto> Directory)\<rparr>) qs)))"

definition mkdirSync_recursive :: "filesys \<Rightarrow> path \<Rightarrow> error option \<times> filesys" where
  \<comment> \<open>\<^verbatim>\<open>fs.mkdirSync(p, { recursive: true })\<close>: every missing directory from the root down to
      \<open>p\<close>; the error names the path that was asked for\<close>
  "mkdirSync_recursive fs p =
     (if \<not> validPath p then (Some (FsError ERR_INVALID_ARG_VALUE p), fs)
      else case mkdirs fs (ancestors p @ [p]) of
             (Some e, fs1) \<Rightarrow> (Some (FsError e p), fs1)
           | (None, fs1) \<Rightarrow> (None, fs1))"

definition writeFileSync :: "filesys \<Rightarrow> path \<Rightarrow> string \<Rightarrow> error + filesys" where
  \<comment> \<open>\<^verbatim>\<open>fs.writeFileSync(p, content, 'utf8')\<close>\<close>
  "writeFileSync fs p content =
     (if \<not> validPath p then Inl (FsError ERR_INVALID_ARG_VALUE p)
      else case refuses fs Write p of
             Some e \<Rightarrow> Inl (FsError e p)
           | None \<Rightarrow>
               if p = [] \<or> tree fs p = Some Directory then Inl (FsError EISDIR p)
               else (case tree fs (dirname p) of
                       None \<Rightarrow> Inl (FsError ENOENT p)
                     | Some (File c) \<Rightarrow> Inl (FsError ENOTDIR p)
                     | Some (Special c) \<Rightarrow> Inl (FsError ENOTDIR p)
                     | Some Directory \<Rightarrow>
                         (case tree fs p of
                            Some (Special c) \<Rightarrow> Inr fs
                          | _ \<Rightarrow> Inr (fs\<lparr>tree := (tree fs)(p \<mapsto> File content)\<rparr>))))"

definition readFileSync :: "filesys \<Rightarrow> path \<Rightarrow> error + string" where
  \<comment> \<open>\<^verbatim>\<open>fs.readFileSync(p, 'utf8')\<close>\<close>
  "readFileSync fs p =
     (if \<not> validPath p then Inl (FsError ERR_INVALID_ARG_VALUE p)
      else case refuses fs Read p of
             Some e \<Rightarrow> Inl (FsError e p)
           | None \<Rightarrow>
               (case tree fs p of
                  None \<Rightarrow> Inl (FsError ENOENT p)
                | Some Directory \<Rightarrow> Inl (FsError EISDIR p)
                | Some (File c) \<Rightarrow> Inr c
                | Some (Special c) \<Rightarrow> Inr c))"

definition unlinkSync :: "filesys \<Rightarrow> path \<Rightarrow> error + filesys" where
  "unlinkSync fs p =
     (if \<not> validPath p then Inl (FsError ERR_INVALID_ARG_VALUE p)
      else case refuses fs Remove p of
             Some e \<Rightarrow> Inl (FsError e p)
           | None \<Rightarrow>
               (case tree fs p of
                  None \<Rightarrow> Inl (FsError ENOENT p)
                | Some Directory \<Rightarrow> Inl (FsError EISDIR p)
                | Some (File c) \<Rightarrow> Inr (fs\<lparr>tree := (tree fs)(p := None)\<rparr>)
                | Some (Special c) \<Rightarrow> Inr (fs\<lparr>tree := (tree fs)(p := None)\<rparr>)))"

definition rmSync_recursive_force :: "filesys \<Rightarrow> path \<Rightarrow> error + filesys" where
  \<comment> \<open>\<^verbatim>\<open>fs.rmSync(p, { recursive: true, force: true })\<close>: the path and all below it; the root is
      refused, and \<open>refuses fs Remove p\<close> stands for a refusal anywhere below \<open>p\<close>\<close>
  "rmSync_recursive_force fs p =
     (if \<not> validPath p then Inl (FsError ERR_INVALID_ARG_VALUE p)
      else case refuses fs Remove p of
             Some e \<Rightarrow> Inl (FsError e p)
           | None \<Rightarrow>
               if p = [] then Inl (FsError EBUSY p)
               else Inr (fs\<lparr>tree := (\<lambda>q. if take (length p) q = p then None else tree fs q)\<rparr>))"


section \<open>The state of the process and its environment\<close>

datatype role = System | User | Assistant

datatype content =
    Text string
  | Stringified json  \<comment> \<open>the text \<^verbatim>\<open>JSON.stringify\<close> gives for a parsed reply\<close>

record msg =
  role :: role
  content :: content

text \<open>
  What the process prints, without colours and pictographs: the arguments of
  \<^verbatim>\<open>console.log\<close>, \<^verbatim>\<open>console.warn\<close> and \<^verbatim>\<open>console.error\<close>, and the
  text of the spinner.
\<close>

datatype console_event =
    ConsoleLog "json list"
  | ConsoleWarn "json list"
  | ConsoleError "json list"
  | SpinnerStart string
  | SpinnerFail string
  | SpinnerSucceed string

datatype pc =
    AwaitingPrompt  \<comment> \<open>at the head of the outer loop\<close>
  | PlannerCall  \<comment> \<open>at the head of the inner loop\<close>
  | Exited  \<comment> \<open>the process has ended without an exception: the outer loop was left by
      \<^verbatim>\<open>break\<close>, or the input is closed and nothing is left to wait for\<close>
  | Uncaught error  \<comment> \<open>an exception reached the top level: the process ends\<close>

record state =
  message :: "msg list"
  currentDir :: path
  files :: filesys
  console :: "console_event list"
  pc :: pc
  asked :: nat  \<comment> \<open>prompts requested so far\<close>
  calls :: nat  \<comment> \<open>completion calls made so far\<close>

text \<open>
  The environment answers what the program cannot compute: the lines the user types, the
  replies of the completion endpoint (already through \<^verbatim>\<open>JSON.parse\<close>), the commands
  the shell runs, and the conversion of a value that is not a string to a string. Prompts and
  replies are indexed by their number, a shell command by the number of the turn as well.
\<close>

datatype prompt_event =
    Line string
  | QuestionRejected  \<comment> \<open>\<^verbatim>\<open>rl.question\<close> throws\<close>
  | EndOfInput  \<comment> \<open>the input is closed: the question is never answered\<close>

datatype planner_reply =
    EndpointFailure  \<comment> \<open>the completion call throws\<close>
  | InvalidJSON  \<comment> \<open>the reply is no JSON text: \<^verbatim>\<open>JSON.parse\<close> throws\<close>
  | Parsed json

record exec_result =
  exec_error :: bool  \<comment> \<open>the command exits nonzero (or cannot run)\<close>
  stdout :: string
  stderr :: string
  files_after :: filesys

record env =
  prompts :: "nat \<Rightarrow> prompt_event"
  replies :: "nat \<Rightarrow> planner_reply"
  exec :: "nat \<Rightarrow> string \<Rightarrow> path \<Rightarrow> filesys \<Rightarrow> exec_result"
  ToString :: "json \<Rightarrow> error + string"

datatype 'a result = Returned 'a | Threw error

definition say :: "console_event \<Rightarrow> state \<Rightarrow> state" where
  "say ev st = st\<lparr>console := console st @ [ev]\<rparr>"

definition toText :: "env \<Rightarrow> json \<Rightarrow> error + string" where
  "toText ev v = (case v of JStr s \<Rightarrow> Inr s | _ \<Rightarrow> ToString ev v)"

section \<open>The task functions\<close>

text \<open>
  Each function takes the state and returns what it returns or throws, with the state it
  leaves. An argument is the JSON value of the reply; where Node throws on a value that is
  not a string, the function throws \<^term>\<open>TypeError\<close>.
\<close>

definition runShellCommand :: "env \<Rightarrow> json \<Rightarrow> state \<Rightarrow> json result \<times> state" where
  "runShellCommand ev command st =
     (case toText ev command of
        Inl e \<Rightarrow> (Threw e, st)
      | Inr shown \<Rightarrow>
          let st1 = say (SpinnerStart (''Running: '' @ shown)) st
          in case command of
               JStr cmd \<Rightarrow>
                 let r = exec ev (calls st) cmd (currentDir st) (files st);
                     st2 = st1\<lparr>files := files_after r\<rparr>
                 in if exec_error r
                    then (Threw (ExecError cmd (stderr r)),
                          say (ConsoleError [JStr (''Error:'' @ [newline] @ stderr r)])
                            (say (SpinnerFail (''Failed: '' @ cmd)) st2))
                    else (Returned (JStr (stdout r)),
                          say (ConsoleLog [JStr (trim (stdout r))])
                            (say (SpinnerSucceed (''Success: '' @ cmd)) st2))
             | _ \<Rightarrow> (Threw TypeError, st1))"

definition writeFile :: "json \<Rightarrow> json \<Rightarrow> state \<Rightarrow> unit result \<times> state" where
  "writeFile targetPath cont st =
     (case targetPath of
        JStr tp \<Rightarrow>
          let fullPath = resolve (currentDir st) tp
          in (case mkdirSync_recursive (files st) (dirname fullPath) of
                (Some e, fs1) \<Rightarrow> (Threw e, st\<lparr>files := fs1\<rparr>)
              | (None, fs1) \<Rightarrow>
                  (case cont of
                     JStr txt \<Rightarrow>
                       (case writeFileSync fs1 fullPath txt of
                          Inl e \<Rightarrow> (Threw e, st\<lparr>files := fs1\<rparr>)
                        | Inr fs2 \<Rightarrow>
                            (Returned (),
                             say (ConsoleLog [JStr ''File written:'', JStr (path_text fullPath)])
                               (st\<lparr>files := fs2\<rparr>)))
                   | _ \<Rightarrow> (Threw TypeError, st\<lparr>files := fs1\<rparr>)))
      | _ \<Rightarrow> (Threw TypeError, st))"

definition readFile :: "json \<Rightarrow> state \<Rightarrow> json result \<times> state" where
  "readFile targetPath st =
     (case targetPath of
        JStr tp \<Rightarrow>
          let fullPath = resolve (currentDir st) tp
          in if existsSync (files st) fullPath
             then (case readFileSync (files st) fullPath of
                     Inl e \<Rightarrow> (Threw e, st)
                   | Inr txt \<Rightarrow>
                       (Returned (JStr txt),
                        say (ConsoleLog [JStr txt])
                          (say (ConsoleLog [JStr ''File content from:'', JStr (path_text fullPath)]) st)))
             else (Returned JNull,
                   say (ConsoleWarn [JStr ''File not found:'', JStr (path_text fullPath)]) st)
      | _ \<Rightarrow> (Threw TypeError, st))"

definition editFile :: "json \<Rightarrow> json \<Rightarrow> state \<Rightarrow> unit result \<times> state" where
  "editFile targetPath cont st =
     (case targetPath of
        JStr tp \<Rightarrow>
          let fullPath = resolve (currentDir st) tp
          in if existsSync (files st) fullPath
             then (case cont of
                     JStr txt \<Rightarrow>
                       (case writeFileSync (files st) fullPath txt of
                          Inl e \<Rightarrow> (Threw e, st)
                        | Inr fs1 \<Rightarrow>
                            (Returned (),
                             say (ConsoleLog [JStr ''File edited:'', JStr (path_text fullPath)])
                               (st\<lparr>files := fs1\<rparr>)))
                   | _ \<Rightarrow> (Threw TypeError, st))
             else (Returned (),
                   say (ConsoleWarn [JStr ''Cannot edit, file not found:'', JStr (path_text fullPath)]) st)
      | _ \<Rightarrow> (Threw TypeError, st))"

definition createAndChange :: "path \<Rightarrow> state \<Rightarrow> unit result \<times> state" where
  \<comment> \<open>the \<^verbatim>\<open>else\<close> branch of \<^verbatim>\<open>changeDirectory\<close>\<close>
  "createAndChange targetPath st =
     (case mkdirSync_recursive (files st) targetPath of
        (Some e, fs1) \<Rightarrow> (Threw e, st\<lparr>files := fs1\<rparr>)
      | (None, fs1) \<Rightarrow>
          (Returned (),
           say (ConsoleLog [JStr ''Created and changed directory to:'', JStr (path_text targetPath)])
             (st\<lparr>files := fs1, currentDir := targetPath\<rparr>)))"

definition changeDirectory :: "json \<Rightarrow> state \<Rightarrow> unit result \<times> state" where
  "changeDirectory newPath st =
     (case newPath of
        JStr np \<Rightarrow>
          let targetPath = resolve (currentDir st) np
          in if existsSync (files st) targetPath
             then (case lstatSync_isDirectory (files st) targetPath of
                     Inl e \<Rightarrow> (Threw e, st)
                   | Inr True \<Rightarrow>
                       (Returned (),
                        say (ConsoleLog [JStr ''Changed directory to:'', JStr (path_text targetPath)])
                          (st\<lparr>currentDir := targetPath\<rparr>))
                   | Inr False \<Rightarrow> createAndChange targetPath st)
             else createAndChange targetPath st
      | _ \<Rightarrow> (Threw TypeError, st))"

fun cleanUp_forEach :: "json list \<Rightarrow> state \<Rightarrow> unit result \<times> state" where
  "cleanUp_forEach [] st = (Returned (), st)"
| "cleanUp_forEach (p # ps) st =
     (case p of
        JStr pstr \<Rightarrow>
          let fullPath = resolve (currentDir st) pstr
          in if existsSync (files st) fullPath
             then (case lstatSync_isDirectory (files st) fullPath of
                     Inl e \<Rightarrow> (Threw e, st)
                   | Inr isDir \<Rightarrow>
                       (case (if isDir then rmSync_recursive_force (files st) fullPath
                              else unlinkSync (files st) fullPath) of
                          Inl e \<Rightarrow> (Threw e, st)
                        | Inr fs1 \<Rightarrow>
                            cleanUp_forEach ps
                              (say (ConsoleLog [JStr ''Removed:'', JStr (path_text fullPath)])
                                 (st\<lparr>files := fs1\<rparr>))))
             else cleanUp_forEach ps st
      | _ \<Rightarrow> (Threw TypeError, st))"

definition cleanUp :: "json \<Rightarrow> state \<Rightarrow> unit result \<times> state" where
  "cleanUp paths st =
     (case paths of JArr ps \<Rightarrow> cleanUp_forEach ps st | _ \<Rightarrow> (Threw TypeError, st))"

definition fileContains :: "env \<Rightarrow> json \<Rightarrow> json \<Rightarrow> state \<Rightarrow> bool result \<times> state" where
  "fileContains ev filePath searchText st =
     (case filePath of
        JStr fp \<Rightarrow>
          let fullPath = resolve (currentDir st) (trim fp)
          in if existsSync (files st) fullPath
             then (case readFileSync (files st) fullPath of
                     Inl e \<Rightarrow> (Threw e, st)
                   | Inr txt \<Rightarrow>
                       (case toText ev searchText of
                          Inl e \<Rightarrow> (Threw e, st)
                        | Inr needle \<Rightarrow> (Returned (includes_str txt needle), st)))
             else (Returned False, st)
      | _ \<Rightarrow> (Threw TypeError, st))"

definition logStep :: "env \<Rightarrow> json \<Rightarrow> state \<Rightarrow> unit result \<times> state" where
  "logStep ev description st =
     (let st1 = say (ConsoleLog [JStr [newline]]) st
      in case toText ev description of
           Inl e \<Rightarrow> (Threw e, st1)
         | Inr shown \<Rightarrow> (Returned (), say (ConsoleLog [JStr '' Step: '', JStr shown]) st1))"

definition hasErrorMarker :: "string \<Rightarrow> bool" where
  \<comment> \<open>the condition in the loop of \<^verbatim>\<open>parseShellErrors\<close>\<close>
  "hasErrorMarker line = (includes_str (toLowerCase line) ''error'' \<or> includes_str line ''ERR_'')"

definition parseShellErrors_forEach :: "string list \<Rightarrow> string list" where
  \<comment> \<open>the loop over the lines, pushing to \<^verbatim>\<open>errors\<close>\<close>
  "parseShellErrors_forEach lines =
     foldl (\<lambda>errors line. if hasErrorMarker line then errors @ [trim line] else errors) [] lines"

definition parseShellErrors :: "json \<Rightarrow> state \<Rightarrow> string list result \<times> state" where
  \<comment> \<open>the bullet before each error is written \<open>*\<close>\<close>
  "parseShellErrors stderr_text st =
     (case stderr_text of
        JStr s \<Rightarrow>
          let errors = parseShellErrors_forEach (split newline s)
          in (Returned errors,
              if errors \<noteq> []
              then foldl (\<lambda>st' err. say (ConsoleLog [JStr ''*'', JStr err]) st')
                     (say (ConsoleLog [JStr ''Detected Errors:'']) st) errors
              else say (ConsoleLog [JStr ''No critical errors found in stderr'']) st)
      | _ \<Rightarrow> (Threw TypeError, st))"

definition isLineTerminator :: "char \<Rightarrow> bool" where
  "isLineTerminator c = (c = CHR 0x0A \<or> c = CHR 0x0D)"

fun lazyUntilQuote :: "string \<Rightarrow> string option" where
  \<comment> \<open>\<^verbatim>\<open>(.*?)'\<close>: the shortest run of characters of one line that a quote follows\<close>
  "lazyUntilQuote [] = None"
| "lazyUntilQuote (c # cs) =
     (if c = CHR 0x27 then Some []
      else if isLineTerminator c then None
      else map_option ((#) c) (lazyUntilQuote cs))"

definition cantResolve :: string where
  "cantResolve = ''Can'' @ [CHR 0x27] @ ''t resolve '' @ [CHR 0x27]"

fun matchCantResolve :: "string \<Rightarrow> string option" where
  \<comment> \<open>group 1 of the first match of \<^verbatim>\<open>/Can't resolve '(.*?)'/\<close>, \<^term>\<open>None\<close> for no match\<close>
  "matchCantResolve [] = None"
| "matchCantResolve (c # cs) =
     (if startsWith (c # cs) cantResolve
      then (case lazyUntilQuote (drop (length cantResolve) (c # cs)) of
              Some m \<Rightarrow> Some m
            | None \<Rightarrow> matchCantResolve cs)
      else matchCantResolve cs)"

definition includes_of :: "json \<Rightarrow> string \<Rightarrow> bool option" where
  \<comment> \<open>\<^verbatim>\<open>stderr.includes(s)\<close>: a string and an array have the method, on any other value the call throws\<close>
  "includes_of v s =
     (case v of
        JStr t \<Rightarrow> Some (includes_str t s)
      | JArr xs \<Rightarrow> Some (JStr s \<in> set xs)
      | _ \<Rightarrow> None)"

definition showSuggestions :: "string list \<Rightarrow> state \<Rightarrow> string list result \<times> state" where
  \<comment> \<open>the end of \<^verbatim>\<open>suggestImportsOrFixes\<close>\<close>
  "showSuggestions suggestions st =
     (Returned suggestions,
      if suggestions \<noteq> []
      then foldl (\<lambda>st' s. say (ConsoleLog [JStr ''*'', JStr s]) st')
             (say (ConsoleLog [JStr ''Suggestions:'']) st) suggestions
      else st)"

definition suggestImportsOrFixes :: "json \<Rightarrow> state \<Rightarrow> string list result \<times> state" where
  "suggestImportsOrFixes stderr_text st =
     (case includes_of stderr_text ''React is not defined'' of
        None \<Rightarrow> (Threw TypeError, st)
      | Some react \<Rightarrow>
          let s1 = (if react
                    then [''Did you forget to import React?'' @ [newline]
                          @ ''  Add: import React from '' @ [CHR 0x27] @ ''react'' @ [CHR 0x27]]
                    else [])
          in (case includes_of stderr_text ''Module not found'' of
                None \<Rightarrow> (Threw TypeError, st)
              | Some False \<Rightarrow> showSuggestions s1 st
              | Some True \<Rightarrow>
                  (case stderr_text of
                     JStr s \<Rightarrow>
                       (case matchCantResolve s of
                          Some m \<Rightarrow>
                            showSuggestions
                              (s1 @ [''Missing dependency: '' @ m @ [newline]
                                     @ ''  Try: npm install '' @ m]) st
                        | None \<Rightarrow> showSuggestions s1 st)
                   | _ \<Rightarrow> (Threw TypeError, st))))"

definition discard :: "'a result \<times> state \<Rightarrow> json option result \<times> state" where
  \<comment> \<open>a case that ends in \<^verbatim>\<open>break\<close>: the task returns \<^verbatim>\<open>undefined\<close>\<close>
  "discard r = (case r of (Returned v, st) \<Rightarrow> (Returned None, st) | (Threw e, st) \<Rightarrow> (Threw e, st))"

definition returning :: "('a \<Rightarrow> json) \<Rightarrow> 'a result \<times> state \<Rightarrow> json option result \<times> state" where
  \<comment> \<open>a case that returns what the function returned\<close>
  "returning f r =
     (case r of (Returned v, st) \<Rightarrow> (Returned (Some (f v)), st) | (Threw e, st) \<Rightarrow> (Threw e, st))"

definition executeTask :: "env \<Rightarrow> json \<Rightarrow> json \<Rightarrow> json \<Rightarrow> state \<Rightarrow> json option result \<times> state" where
  \<comment> \<open>\<^verbatim>\<open>executeTask({ type, input, content })\<close>\<close>
  "executeTask ev ttype inp cont st =
     (if ttype = JStr ''shell'' then discard (runShellCommand ev inp st)
      else if ttype = JStr ''write'' then discard (writeFile inp cont st)
      else if ttype = JStr ''read'' then returning (\<lambda>v. v) (readFile inp st)
      else if ttype = JStr ''edit'' then discard (editFile inp cont st)
      else if ttype = JStr ''cd'' then discard (changeDirectory inp st)
      else if ttype = JStr ''clean'' then discard (cleanUp inp st)
      else if ttype = JStr ''contains'' then returning JBool (fileContains ev inp cont st)
      else if ttype = JStr ''log'' then discard (logStep ev inp st)
      else if ttype = JStr ''errors'' then discard (parseShellErrors inp st)
      else if ttype = JStr ''suggestions'' then discard (suggestImportsOrFixes inp st)
      else (Returned None, say (ConsoleError [JStr ''Unknown task type'']) st))"

section \<open>The control loop\<close>

definition push :: "msg \<Rightarrow> state \<Rightarrow> state" where
  "push m st = st\<lparr>message := message st @ [m]\<rparr>"

definition property :: "json \<Rightarrow> string \<Rightarrow> error + json option" where
  \<comment> \<open>\<^verbatim>\<open>v.k\<close> for one of the keys the loop reads: throws on \<^verbatim>\<open>null\<close>, \<^verbatim>\<open>undefined\<close> on a value that is no object\<close>
  "property v k =
     (case v of JNull \<Rightarrow> Inl TypeError | JObj ms \<Rightarrow> Inr (getProp ms k) | _ \<Rightarrow> Inr None)"

definition assistant :: "json \<Rightarrow> msg" where
  "assistant parsed_result = \<lparr>role = Assistant, content = Stringified parsed_result\<rparr>"

definition or_empty :: "json option \<Rightarrow> json" where
  \<comment> \<open>\<^verbatim>\<open>fContent || ''\<close>\<close>
  "or_empty fContent = (case fContent of Some c \<Rightarrow> if truthy c then c else JStr [] | None \<Rightarrow> JStr [])"

definition action :: "env \<Rightarrow> json \<Rightarrow> state \<Rightarrow> state" where
  \<comment> \<open>the branch of the inner loop for \<^verbatim>\<open>parsed_result.step === 'action'\<close>\<close>
  "action ev parsed_result st =
     (case (property parsed_result ''fType'', property parsed_result ''fInput'',
            property parsed_result ''fContent'') of
        (Inr fType, Inr fInput, Inr fContent) \<Rightarrow>
          (case (fType, fInput) of
             (Some t, Some i) \<Rightarrow>
               if truthy t
               then (case executeTask ev t i (or_empty fContent) st of
                       (Threw e, st') \<Rightarrow> st'\<lparr>pc := Uncaught e\<rparr>
                     | (Returned v, st') \<Rightarrow> push (assistant parsed_result) st')
               else push (assistant parsed_result)
                      (say (ConsoleWarn [JStr ''Missing fType or fInput in action step!'']) st)
           | _ \<Rightarrow>
               push (assistant parsed_result)
                 (say (ConsoleWarn [JStr ''Missing fType or fInput in action step!'']) st))
      | _ \<Rightarrow> st\<lparr>pc := Uncaught TypeError\<rparr>)"

definition inner_body :: "env \<Rightarrow> state \<Rightarrow> state" where
  \<comment> \<open>one turn of the inner \<^verbatim>\<open>while (true)\<close>\<close>
  "inner_body ev st0 =
     (let st = st0\<lparr>calls := Suc (calls st0)\<rparr>
      in case replies ev (calls st0) of
           EndpointFailure \<Rightarrow> st\<lparr>pc := Uncaught EndpointError\<rparr>
         | InvalidJSON \<Rightarrow> st\<lparr>pc := Uncaught SyntaxError\<rparr>
         | Parsed parsed_result \<Rightarrow>
             (case property parsed_result ''step'' of
                Inl e \<Rightarrow> st\<lparr>pc := Uncaught e\<rparr>
              | Inr step \<Rightarrow>
                  let st1 = (if step = Some (JStr ''analyze'')
                             then push (assistant parsed_result) st else st);
                      st2 = (if step = Some (JStr ''convert'')
                             then push (assistant parsed_result) st1 else st1)
                  in if step = Some (JStr ''output'')
                     then (say (ConsoleLog [JStr [newline]])
                             (say (ConsoleLog [JStr (''Output :'' @ [newline]), parsed_result]) st2))
                          \<lparr>pc := AwaitingPrompt\<rparr>
                     else if step = Some (JStr ''action'')
                     then action ev parsed_result st2
                     else st2))"

definition outer_body :: "env \<Rightarrow> state \<Rightarrow> state" where
  \<comment> \<open>the head of the outer \<^verbatim>\<open>while (true)\<close>: the prompt, up to the inner loop\<close>
  "outer_body ev st0 =
     (let st = st0\<lparr>asked := Suc (asked st0)\<rparr>
      in case prompts ev (asked st0) of
           Line prompt \<Rightarrow>
             if prompt = ''exit''
             then (say (ConsoleLog [JStr [newline]])
                     (say (ConsoleLog [JStr (newline # ''Thanks for using Agent Buddy! See You Later '')])
                        st))
                  \<lparr>pc := Exited\<rparr>
             else (push \<lparr>role = User, content = Text prompt\<rparr> st)\<lparr>pc := PlannerCall\<rparr>
         | QuestionRejected \<Rightarrow>
             (say (ConsoleLog [JStr ''ERROR in outer loop:'']) st)\<lparr>pc := PlannerCall\<rparr>
         | EndOfInput \<Rightarrow> st\<lparr>pc := Exited\<rparr>)"

definition step :: "env \<Rightarrow> state \<Rightarrow> state" where
  "step ev st =
     (case pc st of
        AwaitingPrompt \<Rightarrow> outer_body ev st
      | PlannerCall \<Rightarrow> inner_body ev st
      | Exited \<Rightarrow> st
      | Uncaught e \<Rightarrow> st)"

fun run :: "env \<Rightarrow> nat \<Rightarrow> state \<Rightarrow> state" where
  "run ev 0 st = st"
| "run ev (Suc n) st = run ev n (step ev st)"

definition initial_state :: "string \<Rightarrow> path \<Rightarrow> filesys \<Rightarrow> state" where
  \<comment> \<open>\<open>system_prompt\<close> is the text of the system instruction, \<open>cwd\<close> the launch directory\<close>
  "initial_state system_prompt cwd fs =
     \<lparr>message = [\<lparr>role = System, content = Text system_prompt\<rparr>],
      currentDir = cwd, files = fs, console = [], pc = AwaitingPrompt, asked = 0, calls = 0\<rparr>"

section \<open>Predicates of the statements and sample inputs\<close>



definition unrefused :: "filesys \<Rightarrow> access list \<Rightarrow> path list \<Rightarrow> bool" where
  \<comment> \<open>the operating system refuses none of the accesses to any of the paths\<close>
  "unrefused fs as ps = (\<forall>a \<in> set as. \<forall>p \<in> set ps. refuses fs a p = None)"

definition action_reply :: "json \<Rightarrow> json option \<Rightarrow> json option \<Rightarrow> json option \<Rightarrow> bool" where
  \<comment> \<open>a reply of the action step with the given task fields (\<^term>\<open>None\<close>: the field is missing)\<close>
  "action_reply parsed_result fType fInput fContent =
     (property parsed_result ''step'' = Inr (Some (JStr ''action''))
      \<and> property parsed_result ''fType'' = Inr fType
      \<and> property parsed_result ''fInput'' = Inr fInput
      \<and> property parsed_result ''fContent'' = Inr fContent)"

definition intermediate_reply :: "planner_reply \<Rightarrow> bool" where
  \<comment> \<open>a reply of the analyze, convert or action step\<close>
  "intermediate_reply r =
     (case r of
        Parsed parsed_result \<Rightarrow>
          property parsed_result ''step'' = Inr (Some (JStr ''analyze''))
          \<or> property parsed_result ''step'' = Inr (Some (JStr ''convert''))
          \<or> property parsed_result ''step'' = Inr (Some (JStr ''action''))
      | _ \<Rightarrow> False)"

definition ignored_reply :: "planner_reply \<Rightarrow> bool" where
  \<comment> \<open>a reply that parses to a value other than \<^verbatim>\<open>null\<close> whose step is missing or is none of
      the four strings the loop compares it with\<close>
  "ignored_reply r =
     (case r of
        Parsed parsed_result \<Rightarrow>
          (case property parsed_result ''step'' of
             Inl e \<Rightarrow> False
           | Inr stp \<Rightarrow>
               stp \<noteq> Some (JStr ''analyze'') \<and> stp \<noteq> Some (JStr ''convert'')
               \<and> stp \<noteq> Some (JStr ''output'') \<and> stp \<noteq> Some (JStr ''action''))
      | _ \<Rightarrow> False)"

definition keeps :: "state \<Rightarrow> state \<Rightarrow> bool" where
  \<comment> \<open>the second state has the history and the control of the first\<close>
  "keeps st st' =
     (message st' = message st \<and> pc st' = pc st \<and> asked st' = asked st \<and> calls st' = calls st)"

definition sample_files :: filesys where
  "sample_files =
     \<lparr>tree = [[] \<mapsto> Directory, [''home''] \<mapsto> Directory,
              [''home'', ''App.jsx''] \<mapsto> File ''Hello''],
      refuses = (\<lambda>a p. None)\<rparr>"

definition readonly_files :: filesys where
  \<comment> \<open>the sample files on a device that is mounted read-only\<close>
  "readonly_files =
     sample_files\<lparr>refuses := (\<lambda>a p. if a = Create \<or> a = Write \<or> a = Remove then Some EROFS else None)\<rparr>"

definition sample_state :: state where
  "sample_state = initial_state ''You are an Expert Developer.'' [''home''] sample_files"

definition scripted :: "prompt_event list \<Rightarrow> planner_reply list
    \<Rightarrow> (nat \<Rightarrow> string \<Rightarrow> path \<Rightarrow> filesys \<Rightarrow> exec_result) \<Rightarrow> env" where
  \<comment> \<open>the user types the given lines and then \<open>exit\<close>; the endpoint gives the given replies and then fails\<close>
  "scripted ps rs sh =
     \<lparr>prompts = (\<lambda>n. if n < length ps then ps ! n else Line ''exit''),
      replies = (\<lambda>n. if n < length rs then rs ! n else EndpointFailure),
      exec = sh,
      ToString = (\<lambda>v. Inr ''[object Object]'')\<rparr>"

definition repeating :: "planner_reply \<Rightarrow> env" where
  \<comment> \<open>the endpoint gives the same reply at every call; the user types \<open>go\<close>\<close>
  "repeating r =
     \<lparr>prompts = (\<lambda>n. Line ''go''),
      replies = (\<lambda>n. r),
      exec = (\<lambda>n cmd cwd fs. \<lparr>exec_error = False, stdout = [], stderr = [], files_after = fs\<rparr>),
      ToString = (\<lambda>v. Inr ''[object Object]'')\<rparr>"

definition failing_shell :: "nat \<Rightarrow> string \<Rightarrow> path \<Rightarrow> filesys \<Rightarrow> exec_result" where
  \<comment> \<open>every command exits nonzero\<close>
  "failing_shell n cmd cwd fs = \<lparr>exec_error = True, stdout = [], stderr = ''failed'', files_after = fs\<rparr>"

definition quiet_shell :: "nat \<Rightarrow> string \<Rightarrow> path \<Rightarrow> filesys \<Rightarrow> exec_result" where
  \<comment> \<open>every command succeeds and changes nothing\<close>
  "quiet_shell n cmd cwd fs = \<lparr>exec_error = False, stdout = [], stderr = [], files_after = fs\<rparr>"

definition shell_false :: json where
  "shell_false = JObj [(''step'', JStr ''action''), (''function'', JStr ''executeTask''),
     (''fType'', JStr ''shell''), (''fInput'', JStr ''false''), (''fContent'', JStr [])]"

definition step_plan :: json where
  "step_plan = JObj [(''step'', JStr ''plan'')]"

definition reply_analyze :: json where
  "reply_analyze = JObj [(''step'', JStr ''analyze''), (''content'', JStr ''User wants a file'')]"

definition reply_convert :: json where
  "reply_convert = JObj [(''step'', JStr ''convert''), (''PHASES'', JArr [JStr ''write notes.txt''])]"

definition reply_write :: json where
  "reply_write = JObj [(''step'', JStr ''action''), (''fType'', JStr ''write''),
     (''fInput'', JStr ''notes.txt''), (''fContent'', JStr ''hi'')]"

definition reply_output :: json where
  "reply_output = JObj [(''step'', JStr ''output''), (''content'', JStr ''done'')]"


definition reply_read_missing :: json where
  "reply_read_missing = JObj [(''step'', JStr ''action''), (''fType'', JStr ''read''),
     (''fInput'', JStr ''missing.txt''), (''fContent'', JStr [])]"

section \<open>The errors task\<close>

lemma parseShellErrors_forEach_acc:
  "foldl (\<lambda>errors line. if hasErrorMarker line then errors @ [trim line] else errors) acc lines
     = acc @ map trim (filter hasErrorMarker lines)"
  by (induction lines arbitrary: acc) simp_all

lemma parseShellErrors_forEach_eq:
  "parseShellErrors_forEach lines = map trim (filter hasErrorMarker lines)"
  by (simp add: parseShellErrors_forEach_def parseShellErrors_forEach_acc)

text \<open>
  Claim C4, as amended. For every stderr text, \<open>parseShellErrors\<close> splits it into lines and
  returns, in their original order, the lines that contain an error marker (\<open>error\<close> in any
  letter case, or \<open>ERR_\<close>), each one trimmed of leading and trailing white space: N matching
  lines give N entries, and the result is empty exactly when no line matches.
\<close>

theorem parseShellErrors_trimmed_matches:
  "\<exists>errors. fst (parseShellErrors (JStr s) st) = Returned errors
     \<and> errors = map trim (filter hasErrorMarker (split newline s))
     \<and> length errors = length (filter hasErrorMarker (split newline s))
     \<and> ((errors = []) = (filter hasErrorMarker (split newline s) = []))"
  by (simp add: parseShellErrors_def parseShellErrors_forEach_eq Let_def)

text \<open>An instance: three lines, two of them with a marker, one of these with white space around it.\<close>

theorem parseShellErrors_trimmed_matches_witness:
  "fst (parseShellErrors (JStr (''ok'' @ [newline] @ '' TypeError: x '' @ [newline] @ ''ERR_1''))
         (initial_state [] [] sample_files))
     = Returned [''TypeError: x'', ''ERR_1'']"
proof -
  let ?s = "''ok'' @ [newline] @ '' TypeError: x '' @ [newline] @ ''ERR_1''"
  have ev: "map trim (filter hasErrorMarker (split newline ?s)) = [''TypeError: x'', ''ERR_1'']"
    by code_simp
  from parseShellErrors_trimmed_matches [of ?s "initial_state [] [] sample_files"]
  obtain errors where
    r: "fst (parseShellErrors (JStr ?s) (initial_state [] [] sample_files)) = Returned errors"
    and e: "errors = map trim (filter hasErrorMarker (split newline ?s))"
    by blast
  from e ev have "errors = [''TypeError: x'', ''ERR_1'']"
    by (rule trans)
  with r show ?thesis
    by (simp only:)
qed

text \<open>
  The claim as stated (the matching lines themselves are returned) fails on a line with
  leading white space: the only line of the text matches, and what is returned is not that line.
\<close>

theorem parseShellErrors_exact_lines_counterexample:
  "split newline ''  error'' = [''  error'']
   \<and> hasErrorMarker ''  error''
   \<and> fst (parseShellErrors (JStr ''  error'') (initial_state [] [] sample_files)) = Returned [''error'']
   \<and> [''error''] \<noteq> [''  error'']"
  by (simp add: parseShellErrors_def parseShellErrors_forEach_def newline_def hasErrorMarker_def
        toLowerCase_def lowerChar_def trim_def isWhiteSpace_def)

text \<open>
  The dispatcher calls \<open>parseShellErrors\<close> and drops what it returns: the task itself
  returns \<^verbatim>\<open>undefined\<close>.
\<close>

lemma executeTask_errors_undefined:
  "fst (executeTask ev (JStr ''errors'') (JStr s) c st) = Returned None"
  by (simp add: executeTask_def discard_def parseShellErrors_def Let_def)

section \<open>The file tasks\<close>
















text \<open>
  It is false as well where the operating system refuses to create the directory, here on a
  device that is mounted read-only.
\<close>

lemma changeDirectory_refused_example:
  "fst (changeDirectory (JStr ''src'') (sample_state\<lparr>files := readonly_files\<rparr>))
     = Threw (FsError EROFS [''home'', ''src''])"
  by code_simp




text \<open>
  A write that the operating system refuses throws as well.
\<close>

lemma writeFile_refused_example:
  "fst (writeFile (JStr ''notes.txt'') (JStr ''hi'') (sample_state\<lparr>files := readonly_files\<rparr>))
     = Threw (FsError EROFS [''home'', ''notes.txt''])"
  by code_simp

section \<open>Paths with white space\<close>

lemma dropWhile_rev_dropWhile:
  "dropWhile P (rev (dropWhile P (rev (dropWhile P s)))) = rev (dropWhile P (rev (dropWhile P s)))"
proof -
  let ?a = "dropWhile P s"
  let ?b = "dropWhile P (rev ?a)"
  show ?thesis
  proof (cases "?b = []")
    case True
    show ?thesis unfolding True by simp
  next
    case False
    have ne: "rev ?a \<noteq> []"
    proof
      assume e: "rev ?a = []"
      have "?b = []" unfolding e by simp
      with False show False by contradiction
    qed
    then have a: "?a \<noteq> []"
      using rev_is_Nil_conv by blast
    have "last ?b = last (rev ?a)"
      using False by (metis last_appendR takeWhile_dropWhile_id)
    also have "\<dots> = hd ?a"
      using a by (simp add: last_rev)
    finally have "hd (rev ?b) = hd ?a"
      using False by (simp add: hd_rev)
    moreover have "\<not> P (hd ?a)"
      using a by (rule hd_dropWhile)
    ultimately have "\<not> P (hd (rev ?b))" by simp
    then show ?thesis
      by (simp add: dropWhile_eq_self_iff)
  qed
qed

lemma trim_idem: "trim (trim s) = trim s"
  by (simp add: trim_def dropWhile_rev_dropWhile)

lemma set_trim: "set (trim s) \<subseteq> set s"
proof -
  have "set (trim s) = set (dropWhile isWhiteSpace (rev (dropWhile isWhiteSpace s)))"
    by (simp add: trim_def)
  also have "\<dots> \<subseteq> set (rev (dropWhile isWhiteSpace s))"
    by (rule set_dropWhileD [THEN subsetI])
  also have "\<dots> \<subseteq> set s"
    by (auto dest: set_dropWhileD)
  finally show ?thesis .
qed

lemma split_no_separator: "sep \<notin> set s \<Longrightarrow> split sep s = [s]"
  by (induction s) auto

lemma not_absolute: "CHR ''/'' \<notin> set n \<Longrightarrow> \<not> isAbsolute n"
  by (cases n) (auto simp: isAbsolute_def)

lemma resolve_name:
  "CHR ''/'' \<notin> set n \<Longrightarrow> resolve cwd n =
     (if n = [] \<or> n = ''.'' then cwd else if n = ''..'' then butlast cwd else cwd @ [n])"
  by (simp add: resolve_def not_absolute split_no_separator)

lemma resolve_keeps_white_space:
  assumes s: "CHR ''/'' \<notin> set n" and n: "n \<noteq> []" "n \<noteq> ''.''" "n \<noteq> ''..''"
  shows "resolve cwd n = cwd @ [n] \<and> (trim n \<noteq> n \<longrightarrow> resolve cwd (trim n) \<noteq> resolve cwd n)"
proof -
  have r: "resolve cwd n = cwd @ [n]"
    using s n by (simp add: resolve_name)
  from s set_trim [of n] have "CHR ''/'' \<notin> set (trim n)"
    by blast
  then have t: "resolve cwd (trim n) =
      (if trim n = [] \<or> trim n = ''.'' then cwd else if trim n = ''..'' then butlast cwd
       else cwd @ [trim n])"
    by (rule resolve_name)
  have "resolve cwd (trim n) \<noteq> cwd @ [n]" if d: "trim n \<noteq> n"
  proof
    assume e: "resolve cwd (trim n) = cwd @ [n]"
    then have "length (resolve cwd (trim n)) = Suc (length cwd)"
      by simp
    with t have "resolve cwd (trim n) = cwd @ [trim n]"
      by (auto split: if_splits)
    with e d show False
      by simp
  qed
  with r show ?thesis
    by simp
qed

lemma fileContains_at:
  "validPath (resolve (currentDir st) (trim p)) \<Longrightarrow>
   unrefused (files st) [Lookup, Read] [resolve (currentDir st) (trim p)] \<Longrightarrow>
   tree (files st) (resolve (currentDir st) (trim p)) = Some (File body) \<Longrightarrow>
   fileContains ev (JStr p) (JStr s) st = (Returned (includes_str body s), st)"
  by (simp add: fileContains_def existsSync_def readFileSync_def toText_def unrefused_def Let_def)

lemma fileContains_absent:
  "\<not> existsSync (files st) (resolve (currentDir st) (trim p)) \<Longrightarrow>
   fileContains ev (JStr p) c st = (Returned False, st)"
  by (simp add: fileContains_def Let_def)

lemma readFile_at:
  "validPath (resolve (currentDir st) p) \<Longrightarrow>
   unrefused (files st) [Lookup, Read] [resolve (currentDir st) p] \<Longrightarrow>
   tree (files st) (resolve (currentDir st) p) = Some (File body) \<Longrightarrow>
   fst (readFile (JStr p) st) = Returned (JStr body)"
  by (simp add: readFile_def existsSync_def readFileSync_def unrefused_def Let_def)

lemma readFile_absent:
  "\<not> existsSync (files st) (resolve (currentDir st) p) \<Longrightarrow>
   fst (readFile (JStr p) st) = Returned JNull"
  by (simp add: readFile_def Let_def)

lemma writeFileSync_at:
  "writeFileSync fs t c = Inr fs' \<Longrightarrow>
     tree fs' t = Some (File c) \<or> (\<exists>x. tree fs' t = Some (Special x))"
  by (auto simp: writeFileSync_def split: if_splits option.splits node.splits)

lemma writeFile_at:
  "fst (writeFile (JStr p) (JStr c) st) = Returned () \<Longrightarrow>
     tree (files (snd (writeFile (JStr p) (JStr c) st))) (resolve (currentDir st) p) = Some (File c)
     \<or> (\<exists>x. tree (files (snd (writeFile (JStr p) (JStr c) st))) (resolve (currentDir st) p)
           = Some (Special x))"
  by (auto simp: writeFile_def Let_def say_def dest: writeFileSync_at
      split: prod.splits option.splits sum.splits)

lemma editFile_at:
  "fst (editFile (JStr p) (JStr c) st) = Returned () \<Longrightarrow>
     (if existsSync (files st) (resolve (currentDir st) p)
      then tree (files (snd (editFile (JStr p) (JStr c) st))) (resolve (currentDir st) p) = Some (File c)
           \<or> (\<exists>x. tree (files (snd (editFile (JStr p) (JStr c) st))) (resolve (currentDir st) p)
                 = Some (Special x))
      else files (snd (editFile (JStr p) (JStr c) st)) = files st)"
  by (auto simp: editFile_def Let_def say_def dest: writeFileSync_at split: sum.splits)

lemma changeDirectory_at:
  "fst (changeDirectory (JStr p) st) = Returned () \<Longrightarrow>
     currentDir (snd (changeDirectory (JStr p) st)) = resolve (currentDir st) p"
  by (auto simp: changeDirectory_def createAndChange_def Let_def say_def
      split: sum.splits bool.splits prod.splits option.splits if_splits)

lemma cleanUp_at:
  "fst (cleanUp (JArr [JStr p]) st) = Returned () \<Longrightarrow>
     (if existsSync (files st) (resolve (currentDir st) p)
      then tree (files (snd (cleanUp (JArr [JStr p]) st))) (resolve (currentDir st) p) = None
      else files (snd (cleanUp (JArr [JStr p]) st)) = files st)"
  by (auto simp: cleanUp_def Let_def say_def lstatSync_isDirectory_def rmSync_recursive_force_def
      unlinkSync_def split: sum.splits if_splits option.splits node.splits)

text \<open>
  Claim C10. A \<open>contains\<close> task trims its path argument before resolving it: what it tests is
  the file at the trimmed path resolved against the current directory (so the input
  \<open>" App.jsx"\<close> tests the same file as \<open>"App.jsx"\<close>), and it returns \<^verbatim>\<open>false\<close> when nothing
  is there. No other task that takes a path trims it: \<open>read\<close>, \<open>write\<close>, \<open>edit\<close>, \<open>cd\<close> and
  \<open>clean\<close> act at the path as given, resolved against the current directory, and resolving
  a name keeps its white space, so that a name with white space at an end and its trimmed
  form resolve to different paths. On \<open>" App.jsx"\<close>, \<open>read\<close> finds no file, \<open>write\<close> creates
  a second file, \<open>edit\<close> changes nothing, \<open>cd\<close> enters a directory whose name starts with the
  space, and \<open>clean\<close> removes nothing.
\<close>

theorem contains_trims_path:
  "(validPath (resolve (currentDir st) (trim p))
      \<and> unrefused (files st) [Lookup, Read] [resolve (currentDir st) (trim p)]
      \<and> tree (files st) (resolve (currentDir st) (trim p)) = Some (File body)
      \<longrightarrow> fileContains ev (JStr p) (JStr s) st = (Returned (includes_str body s), st))
   \<and> (\<not> existsSync (files st) (resolve (currentDir st) (trim p))
      \<longrightarrow> fileContains ev (JStr p) (JStr s) st = (Returned False, st))
   \<and> (validPath (resolve (currentDir st) p)
      \<and> unrefused (files st) [Lookup, Read] [resolve (currentDir st) p]
      \<and> tree (files st) (resolve (currentDir st) p) = Some (File body)
      \<longrightarrow> fst (readFile (JStr p) st) = Returned (JStr body))
   \<and> (\<not> existsSync (files st) (resolve (currentDir st) p)
      \<longrightarrow> fst (readFile (JStr p) st) = Returned JNull)
   \<and> (fst (writeFile (JStr p) (JStr c) st) = Returned ()
      \<longrightarrow> tree (files (snd (writeFile (JStr p) (JStr c) st))) (resolve (currentDir st) p)
            = Some (File c)
          \<or> (\<exists>x. tree (files (snd (writeFile (JStr p) (JStr c) st))) (resolve (currentDir st) p)
                = Some (Special x)))
   \<and> (fst (editFile (JStr p) (JStr c) st) = Returned ()
      \<longrightarrow> (if existsSync (files st) (resolve (currentDir st) p)
           then tree (files (snd (editFile (JStr p) (JStr c) st))) (resolve (currentDir st) p)
                  = Some (File c)
                \<or> (\<exists>x. tree (files (snd (editFile (JStr p) (JStr c) st))) (resolve (currentDir st) p)
                      = Some (Special x))
           else files (snd (editFile (JStr p) (JStr c) st)) = files st))
   \<and> (fst (changeDirectory (JStr p) st) = Returned ()
      \<longrightarrow> currentDir (snd (changeDirectory (JStr p) st)) = resolve (currentDir st) p)
   \<and> (fst (cleanUp (JArr [JStr p]) st) = Returned ()
      \<longrightarrow> (if existsSync (files st) (resolve (currentDir st) p)
           then tree (files (snd (cleanUp (JArr [JStr p]) st))) (resolve (currentDir st) p) = None
           else files (snd (cleanUp (JArr [JStr p]) st)) = files st))
   \<and> (CHR ''/'' \<notin> set n \<and> n \<noteq> [] \<and> n \<noteq> ''.'' \<and> n \<noteq> ''..''
      \<longrightarrow> resolve cwd n = cwd @ [n]
          \<and> (trim n \<noteq> n \<longrightarrow> resolve cwd (trim n) \<noteq> resolve cwd n))
   \<and> trim '' App.jsx'' = ''App.jsx''
   \<and> fst (fileContains ev (JStr '' App.jsx'') (JStr ''Hello'') sample_state) = Returned True
   \<and> fst (readFile (JStr '' App.jsx'') sample_state) = Returned JNull
   \<and> fst (readFile (JStr ''App.jsx'') sample_state) = Returned (JStr ''Hello'')
   \<and> tree (files (snd (writeFile (JStr '' App.jsx'') (JStr ''x'') sample_state))) [''home'', ''App.jsx'']
       = Some (File ''Hello'')
   \<and> tree (files (snd (writeFile (JStr '' App.jsx'') (JStr ''x'') sample_state))) [''home'', '' App.jsx'']
       = Some (File ''x'')
   \<and> tree (files (snd (editFile (JStr '' App.jsx'') (JStr ''x'') sample_state))) [''home'', ''App.jsx'']
       = Some (File ''Hello'')
   \<and> tree (files (snd (editFile (JStr ''App.jsx'') (JStr ''x'') sample_state))) [''home'', ''App.jsx'']
       = Some (File ''x'')
   \<and> currentDir (snd (changeDirectory (JStr '' src'') sample_state)) = [''home'', '' src'']
   \<and> tree (files (snd (cleanUp (JArr [JStr '' App.jsx'']) sample_state))) [''home'', ''App.jsx'']
       = Some (File ''Hello'')
   \<and> tree (files (snd (cleanUp (JArr [JStr ''App.jsx'']) sample_state))) [''home'', ''App.jsx''] = None"
proof -
  have v: "validPath (resolve (currentDir sample_state) (trim '' App.jsx''))"
    by code_simp
  have u: "unrefused (files sample_state) [Lookup, Read]
             [resolve (currentDir sample_state) (trim '' App.jsx'')]"
    by (simp add: unrefused_def sample_state_def initial_state_def sample_files_def)
  have f: "tree (files sample_state) (resolve (currentDir sample_state) (trim '' App.jsx''))
             = Some (File ''Hello'')"
    by code_simp
  have i: "includes_str ''Hello'' ''Hello''"
    by simp
  have g1: "(validPath (resolve (currentDir st) (trim p))
      \<and> unrefused (files st) [Lookup, Read] [resolve (currentDir st) (trim p)]
      \<and> tree (files st) (resolve (currentDir st) (trim p)) = Some (File body)
      \<longrightarrow> fileContains ev (JStr p) (JStr s) st = (Returned (includes_str body s), st))"
    using fileContains_at [of st p body ev s] by blast
  have g2: "(\<not> existsSync (files st) (resolve (currentDir st) (trim p))
      \<longrightarrow> fileContains ev (JStr p) (JStr s) st = (Returned False, st))"
    using fileContains_absent [of st p ev "JStr s"] by blast
  have g3: "(validPath (resolve (currentDir st) p)
      \<and> unrefused (files st) [Lookup, Read] [resolve (currentDir st) p]
      \<and> tree (files st) (resolve (currentDir st) p) = Some (File body)
      \<longrightarrow> fst (readFile (JStr p) st) = Returned (JStr body))"
    using readFile_at [of st p body] by blast
  have g4: "(\<not> existsSync (files st) (resolve (currentDir st) p)
      \<longrightarrow> fst (readFile (JStr p) st) = Returned JNull)"
    using readFile_absent [of st p] by blast
  have g5: "(fst (writeFile (JStr p) (JStr c) st) = Returned ()
      \<longrightarrow> tree (files (snd (writeFile (JStr p) (JStr c) st))) (resolve (currentDir st) p)
            = Some (File c)
          \<or> (\<exists>x. tree (files (snd (writeFile (JStr p) (JStr c) st))) (resolve (currentDir st) p)
                = Some (Special x)))"
    using writeFile_at [of p c st] by blast
  have g6: "(fst (editFile (JStr p) (JStr c) st) = Returned ()
      \<longrightarrow> (if existsSync (files st) (resolve (currentDir st) p)
           then tree (files (snd (editFile (JStr p) (JStr c) st))) (resolve (currentDir st) p)
                  = Some (File c)
                \<or> (\<exists>x. tree (files (snd (editFile (JStr p) (JStr c) st))) (resolve (currentDir st) p)
                      = Some (Special x))
           else files (snd (editFile (JStr p) (JStr c) st)) = files st))"
    using editFile_at [of p c st] by blast
  have g7: "(fst (changeDirectory (JStr p) st) = Returned ()
      \<longrightarrow> currentDir (snd (changeDirectory (JStr p) st)) = resolve (currentDir st) p)"
    using changeDirectory_at [of p st] by blast
  have g8: "(fst (cleanUp (JArr [JStr p]) st) = Returned ()
      \<longrightarrow> (if existsSync (files st) (resolve (currentDir st) p)
           then tree (files (snd (cleanUp (JArr [JStr p]) st))) (resolve (currentDir st) p) = None
           else files (snd (cleanUp (JArr [JStr p]) st)) = files st))"
    using cleanUp_at [of p st] by blast
  have g9: "(CHR ''/'' \<notin> set n \<and> n \<noteq> [] \<and> n \<noteq> ''.'' \<and> n \<noteq> ''..''
      \<longrightarrow> resolve cwd n = cwd @ [n]
          \<and> (trim n \<noteq> n \<longrightarrow> resolve cwd (trim n) \<noteq> resolve cwd n))"
    using resolve_keeps_white_space [of n cwd] by blast
  have i0: "trim '' App.jsx'' = ''App.jsx''"
    by code_simp
  have i1: "fst (fileContains ev (JStr '' App.jsx'') (JStr ''Hello'') sample_state) = Returned True"
    using fileContains_at [OF v u f, of ev "''Hello''"] i by simp
  have i2: "fst (readFile (JStr '' App.jsx'') sample_state) = Returned JNull"
    by code_simp
  have i3: "fst (readFile (JStr ''App.jsx'') sample_state) = Returned (JStr ''Hello'')"
    by code_simp
  have i4: "tree (files (snd (writeFile (JStr '' App.jsx'') (JStr ''x'') sample_state))) [''home'', ''App.jsx'']
       = Some (File ''Hello'')"
    by code_simp
  have i5: "tree (files (snd (writeFile (JStr '' App.jsx'') (JStr ''x'') sample_state))) [''home'', '' App.jsx'']
       = Some (File ''x'')"
    by code_simp
  have i6: "tree (files (snd (editFile (JStr '' App.jsx'') (JStr ''x'') sample_state))) [''home'', ''App.jsx'']
       = Some (File ''Hello'')"
    by code_simp
  have i7: "tree (files (snd (editFile (JStr ''App.jsx'') (JStr ''x'') sample_state))) [''home'', ''App.jsx'']
       = Some (File ''x'')"
    by code_simp
  have i8: "currentDir (snd (changeDirectory (JStr '' src'') sample_state)) = [''home'', '' src'']"
    by code_simp
  have i9: "tree (files (snd (cleanUp (JArr [JStr '' App.jsx'']) sample_state))) [''home'', ''App.jsx'']
       = Some (File ''Hello'')"
    by code_simp
  have i10: "tree (files (snd (cleanUp (JArr [JStr ''App.jsx'']) sample_state))) [''home'', ''App.jsx''] = None"
    by code_simp
  from g1 g2 g3 g4 g5 g6 g7 g8 g9 i0 i1 i2 i3 i4 i5 i6 i7 i8 i9 i10 show ?thesis
    by (intro conjI)
qed

text \<open>
  An instance with white space on both sides of the path.
\<close>

theorem contains_trims_path_witness:
  "fileContains (repeating InvalidJSON) (JStr (''  App.jsx'' @ [newline])) (JStr ''ell'') sample_state
     = (Returned True, sample_state)
   \<and> fst (readFile (JStr (''  App.jsx'' @ [newline])) sample_state) = Returned JNull
   \<and> resolve [''home''] '' App.jsx'' = [''home'', '' App.jsx'']"
proof -
  let ?p = "''  App.jsx'' @ [newline]"
  have v: "validPath (resolve (currentDir sample_state) (trim ?p))"
    by code_simp
  have u: "unrefused (files sample_state) [Lookup, Read] [resolve (currentDir sample_state) (trim ?p)]"
    by (simp add: unrefused_def sample_state_def initial_state_def sample_files_def)
  have f: "tree (files sample_state) (resolve (currentDir sample_state) (trim ?p)) = Some (File ''Hello'')"
    by code_simp
  have n: "\<not> existsSync (files sample_state) (resolve (currentDir sample_state) ?p)"
    by code_simp
  have i: "includes_str ''Hello'' ''ell''"
    by simp
  have s: "CHR ''/'' \<notin> set '' App.jsx'' \<and> '' App.jsx'' \<noteq> [] \<and> '' App.jsx'' \<noteq> ''.''
           \<and> '' App.jsx'' \<noteq> ''..''"
    by simp
  note t = contains_trims_path [where st = sample_state and p = ?p and ev = "repeating InvalidJSON"
      and s = "''ell''" and body = "''Hello''" and n = "'' App.jsx''" and cwd = "[''home'']"]
  note c1 = t [THEN conjunct1]
  note c4 = t [THEN conjunct2, THEN conjunct2, THEN conjunct2, THEN conjunct1]
  note c9 = t [THEN conjunct2, THEN conjunct2, THEN conjunct2, THEN conjunct2, THEN conjunct2,
      THEN conjunct2, THEN conjunct2, THEN conjunct2, THEN conjunct1]
  from c1 v u f have "fileContains (repeating InvalidJSON) (JStr ?p) (JStr ''ell'') sample_state
     = (Returned (includes_str ''Hello'' ''ell''), sample_state)"
    by (elim impE) (intro conjI)
  with i have 1: "fileContains (repeating InvalidJSON) (JStr ?p) (JStr ''ell'') sample_state
     = (Returned True, sample_state)"
    by (simp only: )
  from c4 n have 2: "fst (readFile (JStr ?p) sample_state) = Returned JNull"
    by (rule mp)
  from c9 s have "resolve [''home''] '' App.jsx'' = [''home''] @ ['' App.jsx'']
      \<and> (trim '' App.jsx'' \<noteq> '' App.jsx'' \<longrightarrow>
           resolve [''home''] (trim '' App.jsx'') \<noteq> resolve [''home''] '' App.jsx'')"
    by (rule mp)
  then have 3: "resolve [''home''] '' App.jsx'' = [''home''] @ ['' App.jsx'']"
    by (rule conjunct1)
  from 1 2 3 show ?thesis
    by simp
qed

section \<open>The history and the control of the loop\<close>

text \<open>
  No task touches the history, the position in the loop or the counters.
\<close>

lemma keeps_refl [simp]: "keeps st st"
  by (simp add: keeps_def)

lemma keeps_trans: "keeps a b \<Longrightarrow> keeps b c \<Longrightarrow> keeps a c"
  by (simp add: keeps_def)

lemma keeps_say [simp]: "keeps st (say e st') = keeps st st'"
  by (simp add: keeps_def say_def)

lemma keeps_files [simp]: "keeps st (st'\<lparr>files := f\<rparr>) = keeps st st'"
  by (simp add: keeps_def)

lemma keeps_currentDir [simp]: "keeps st (st'\<lparr>currentDir := d\<rparr>) = keeps st st'"
  by (simp add: keeps_def)

lemma keeps_foldl_say:
  "keeps st (foldl (\<lambda>s x. say (f x) s) st' xs) = keeps st st'"
  by (induction xs arbitrary: st') simp_all

lemma runShellCommand_keeps: "keeps st (snd (runShellCommand ev c st))"
  by (simp add: runShellCommand_def Let_def split: sum.splits json.splits)

lemma writeFile_keeps: "keeps st (snd (writeFile p c st))"
  by (simp add: writeFile_def Let_def split: sum.splits json.splits prod.splits option.splits)

lemma readFile_keeps: "keeps st (snd (readFile p st))"
  by (simp add: readFile_def Let_def split: sum.splits json.splits)

lemma editFile_keeps: "keeps st (snd (editFile p c st))"
  by (simp add: editFile_def Let_def split: sum.splits json.splits)

lemma createAndChange_keeps: "keeps st (snd (createAndChange p st))"
  by (simp add: createAndChange_def split: prod.splits option.splits)

lemma changeDirectory_keeps: "keeps st (snd (changeDirectory p st))"
  by (simp add: changeDirectory_def Let_def createAndChange_keeps split: sum.splits json.splits bool.splits)

lemma cleanUp_forEach_keeps: "keeps st0 st \<Longrightarrow> keeps st0 (snd (cleanUp_forEach ps st))"
  by (induction ps arbitrary: st) (simp_all add: Let_def split: sum.splits json.splits)

lemma cleanUp_keeps: "keeps st (snd (cleanUp p st))"
  by (simp add: cleanUp_def cleanUp_forEach_keeps split: json.splits)

lemma fileContains_keeps: "keeps st (snd (fileContains ev p c st))"
  by (simp add: fileContains_def Let_def split: sum.splits json.splits)

lemma logStep_keeps: "keeps st (snd (logStep ev d st))"
  by (simp add: logStep_def Let_def split: sum.splits)

lemma parseShellErrors_keeps: "keeps st (snd (parseShellErrors s st))"
  by (simp add: parseShellErrors_def Let_def keeps_foldl_say split: json.splits)

lemma showSuggestions_keeps: "keeps st (snd (showSuggestions s st))"
  by (simp add: showSuggestions_def keeps_foldl_say)

lemma suggestImportsOrFixes_keeps: "keeps st (snd (suggestImportsOrFixes s st))"
  by (simp add: suggestImportsOrFixes_def Let_def showSuggestions_keeps
      split: option.splits bool.splits json.splits)

lemma snd_discard [simp]: "snd (discard r) = snd r"
  by (simp add: discard_def split: prod.splits result.splits)

lemma snd_returning [simp]: "snd (returning f r) = snd r"
  by (simp add: returning_def split: prod.splits result.splits)

lemma executeTask_keeps: "keeps st (snd (executeTask ev t i c st))"
  by (simp add: executeTask_def runShellCommand_keeps writeFile_keeps readFile_keeps editFile_keeps
      changeDirectory_keeps cleanUp_keeps fileContains_keeps logStep_keeps parseShellErrors_keeps
      suggestImportsOrFixes_keeps)

lemma executeTask_fields:
  "executeTask ev t i c st = (r, st') \<Longrightarrow>
     message st' = message st \<and> pc st' = pc st \<and> calls st' = calls st \<and> asked st' = asked st"
  using executeTask_keeps [of st ev t i c] by (simp add: keeps_def)

lemma push_simps [simp]:
  "message (push m st) = message st @ [m]"
  "pc (push m st) = pc st"
  "calls (push m st) = calls st"
  "asked (push m st) = asked st"
  by (simp_all add: push_def)

lemma say_simps [simp]:
  "message (say e st) = message st"
  "pc (say e st) = pc st"
  "calls (say e st) = calls st"
  "asked (say e st) = asked st"
  "files (say e st) = files st"
  "currentDir (say e st) = currentDir st"
  by (simp_all add: say_def)

lemma role_assistant [simp]: "role (assistant pr) = Assistant"
  by (simp add: assistant_def)

lemma action_outcome:
  "(pc (action ev pr st) = pc st \<and> message (action ev pr st) = message st @ [assistant pr]
      \<or> (\<exists>e. pc (action ev pr st) = Uncaught e) \<and> message (action ev pr st) = message st)
   \<and> calls (action ev pr st) = calls st \<and> asked (action ev pr st) = asked st"
  by (auto simp: action_def dest!: executeTask_fields
      split: sum.splits option.splits prod.splits result.splits)

lemma action_appends:
  "\<exists>ms. message (action ev pr st) = message st @ ms
     \<and> (\<forall>m \<in> set ms. role m = User \<or> role m = Assistant)"
  using action_outcome [of ev pr st] by auto

lemma inner_body_appends:
  "\<exists>ms. message (inner_body ev st) = message st @ ms
     \<and> (\<forall>m \<in> set ms. role m = User \<or> role m = Assistant)"
proof (cases "replies ev (calls st)")
  case EndpointFailure
  then show ?thesis by (simp add: inner_body_def)
next
  case InvalidJSON
  then show ?thesis by (simp add: inner_body_def)
next
  case (Parsed pr)
  show ?thesis
  proof (cases "property pr ''step''")
    case (Inl e)
    with Parsed show ?thesis by (simp add: inner_body_def)
  next
    case (Inr stp)
    consider (an) "stp = Some (JStr ''analyze'')" | (co) "stp = Some (JStr ''convert'')"
      | (ou) "stp = Some (JStr ''output'')" | (ac) "stp = Some (JStr ''action'')"
      | (other) "stp \<noteq> Some (JStr ''analyze'')" "stp \<noteq> Some (JStr ''convert'')"
          "stp \<noteq> Some (JStr ''output'')" "stp \<noteq> Some (JStr ''action'')"
      by blast
    then show ?thesis
    proof cases
      case ac
      with Parsed Inr have "inner_body ev st = action ev pr (st\<lparr>calls := Suc (calls st)\<rparr>)"
        by (simp add: inner_body_def)
      with action_appends [of ev pr "st\<lparr>calls := Suc (calls st)\<rparr>"] show ?thesis
        by simp
    qed (use Parsed Inr in \<open>simp_all add: inner_body_def\<close>)
  qed
qed

lemma outer_body_appends:
  "\<exists>ms. message (outer_body ev st) = message st @ ms
     \<and> (\<forall>m \<in> set ms. role m = User \<or> role m = Assistant)"
  by (cases "prompts ev (asked st)") (simp_all add: outer_body_def Let_def)

lemma step_appends:
  "\<exists>ms. message (step ev st) = message st @ ms
     \<and> (\<forall>m \<in> set ms. role m = User \<or> role m = Assistant)"
  by (cases "pc st") (simp_all add: step_def inner_body_appends outer_body_appends)


lemma run_appends:
  "\<exists>ms. message (run ev n st) = message st @ ms
     \<and> (\<forall>m \<in> set ms. role m = User \<or> role m = Assistant)"
proof (induction n arbitrary: st)
  case 0
  show ?case by simp
next
  case (Suc n)
  from step_appends [of ev st] obtain ms1 where
    a: "message (step ev st) = message st @ ms1"
    and b: "\<forall>m \<in> set ms1. role m = User \<or> role m = Assistant"
    by blast
  from Suc.IH [of "step ev st"] obtain ms2 where
    c: "message (run ev n (step ev st)) = message (step ev st) @ ms2"
    and d: "\<forall>m \<in> set ms2. role m = User \<or> role m = Assistant"
    by blast
  have "message (run ev (Suc n) st) = message st @ (ms1 @ ms2)"
    using a c by simp
  moreover have "\<forall>m \<in> set (ms1 @ ms2). role m = User \<or> role m = Assistant"
    using b d by auto
  ultimately show ?case by blast
qed

lemma run_terminated: "pc st = Uncaught e \<Longrightarrow> run ev n st = st"
  by (induction n) (simp_all add: step_def)

lemma run_exited: "pc st = Exited \<Longrightarrow> run ev n st = st"
  by (induction n) (simp_all add: step_def)

lemma inner_body_action:
  "replies ev (calls st) = Parsed pr \<Longrightarrow> property pr ''step'' = Inr (Some (JStr ''action'')) \<Longrightarrow>
     inner_body ev st = action ev pr (st\<lparr>calls := Suc (calls st)\<rparr>)"
  by (simp add: inner_body_def)

lemma action_returned:
  assumes a: "action_reply pr (Some t) (Some i) fc"
    and t: "truthy t"
    and e: "executeTask ev t i (or_empty fc) st = (Returned v, st')"
  shows "action ev pr st = push (assistant pr) st'"
  using a t e by (simp add: action_def action_reply_def)

text \<open>
  Claim C8. In every state the process reaches from its start, the history begins with the
  system message it was initialised with and every other message has the role user or
  assistant, so there is exactly one system message, it is the first and it is never changed;
  every step of the loop, from any state, leaves the history as it was and appends user or
  assistant messages at its end, so the length never decreases.
\<close>

theorem history_invariant:
  "(\<exists>rest. message (run ev n (initial_state sp cwd fs)) = \<lparr>role = System, content = Text sp\<rparr> # rest
       \<and> (\<forall>m \<in> set rest. role m = User \<or> role m = Assistant))
   \<and> length (filter (\<lambda>m. role m = System) (message (run ev n (initial_state sp cwd fs)))) = 1
   \<and> (\<exists>ms. message (step ev st) = message st @ ms
       \<and> (\<forall>m \<in> set ms. role m = User \<or> role m = Assistant))
   \<and> length (message st) \<le> length (message (step ev st))"
proof -
  from run_appends [of ev n "initial_state sp cwd fs"]
  obtain rest where
    h: "message (run ev n (initial_state sp cwd fs)) = \<lparr>role = System, content = Text sp\<rparr> # rest"
    and r: "\<forall>m \<in> set rest. role m = User \<or> role m = Assistant"
    by (auto simp: initial_state_def)
  from r have "filter (\<lambda>m. role m = System) rest = []"
    by (auto simp: filter_empty_conv)
  with h have one: "length (filter (\<lambda>m. role m = System) (message (run ev n (initial_state sp cwd fs)))) = 1"
    by simp
  from step_appends [of ev st]
  have "length (message st) \<le> length (message (step ev st))"
    by auto
  with h r one show ?thesis
    using step_appends [of ev st] by blast
qed

text \<open>
  An instance: one cycle with an analyze, a convert and an action reply.
\<close>

theorem history_invariant_witness:
  "map role (message (run (scripted [Line ''create notes'']
        [Parsed reply_analyze, Parsed reply_convert, Parsed reply_write, Parsed reply_output] quiet_shell)
      4 sample_state)) = [System, User, Assistant, Assistant, Assistant]
   \<and> (\<exists>rest. message (run (scripted [Line ''create notes'']
        [Parsed reply_analyze, Parsed reply_convert, Parsed reply_write, Parsed reply_output] quiet_shell)
      4 sample_state) = \<lparr>role = System, content = Text ''You are an Expert Developer.''\<rparr> # rest)"
proof -
  let ?ev = "scripted [Line ''create notes'']
        [Parsed reply_analyze, Parsed reply_convert, Parsed reply_write, Parsed reply_output] quiet_shell"
  have 1: "map role (message (run ?ev 4 sample_state)) = [System, User, Assistant, Assistant, Assistant]"
    by code_simp
  from history_invariant [of ?ev 4 "''You are an Expert Developer.''" "[''home'']" sample_files sample_state]
  have "\<exists>rest. message (run ?ev 4 sample_state)
          = \<lparr>role = System, content = Text ''You are an Expert Developer.''\<rparr> # rest"
    unfolding sample_state_def by blast
  with 1 show ?thesis by blast
qed

section \<open>A shell command that fails\<close>

text \<open>
  Claim C1, as amended. For every action reply of kind \<open>shell\<close> whose command exits nonzero,
  \<open>runShellCommand\<close> rejects and nothing catches the rejection: the control loop ends with
  that error, the history is left as it was before the reply (no assistant message, no
  failure content), and no further planner reply is requested.
\<close>

theorem shell_failure_uncaught:
  assumes p: "pc st = PlannerCall"
    and r: "replies ev (calls st) = Parsed pr"
    and a: "action_reply pr (Some (JStr ''shell'')) (Some (JStr cmd)) fc"
    and x: "exec_error (exec ev (Suc (calls st)) cmd (currentDir st) (files st))"
  shows "pc (step ev st)
           = Uncaught (ExecError cmd (stderr (exec ev (Suc (calls st)) cmd (currentDir st) (files st))))
         \<and> message (step ev st) = message st
         \<and> (\<forall>n. run ev n (step ev st) = step ev st)
         \<and> (\<forall>n. calls (run ev n (step ev st)) = Suc (calls st))"
proof -
  let ?st = "st\<lparr>calls := Suc (calls st)\<rparr>"
  let ?e = "ExecError cmd (stderr (exec ev (Suc (calls st)) cmd (currentDir st) (files st)))"
  have s: "step ev st = action ev pr ?st"
    using p r a by (simp add: step_def inner_body_action action_reply_def)
  have "fst (runShellCommand ev (JStr cmd) ?st) = Threw ?e"
    using x by (simp add: runShellCommand_def toText_def Let_def)
  moreover have "keeps ?st (snd (runShellCommand ev (JStr cmd) ?st))"
    by (rule runShellCommand_keeps)
  ultimately obtain st' where
    t: "executeTask ev (JStr ''shell'') (JStr cmd) (or_empty fc) ?st = (Threw ?e, st')"
    and k: "keeps ?st st'"
    by (cases "runShellCommand ev (JStr cmd) ?st") (simp add: executeTask_def discard_def)
  have "action ev pr ?st = st'\<lparr>pc := Uncaught ?e\<rparr>"
    using a t by (simp add: action_def action_reply_def)
  with s have f: "step ev st = st'\<lparr>pc := Uncaught ?e\<rparr>"
    by simp
  have 1: "pc (step ev st) = Uncaught ?e"
    by (simp add: f)
  have 2: "message (step ev st) = message st"
    using k by (simp add: f keeps_def)
  have 3: "calls (step ev st) = Suc (calls st)"
    using k by (simp add: f keeps_def)
  have 4: "\<forall>n. run ev n (step ev st) = step ev st"
    using 1 by (simp add: run_terminated)
  show ?thesis
    using 1 2 3 4 by simp
qed

text \<open>
  An instance: the command \<open>false\<close> in a shell where every command fails.
\<close>

theorem shell_failure_uncaught_witness:
  "pc (step (scripted [Line ''run false''] [Parsed shell_false] failing_shell)
         (step (scripted [Line ''run false''] [Parsed shell_false] failing_shell) sample_state))
     = Uncaught (ExecError ''false'' ''failed'')"
proof -
  let ?ev = "scripted [Line ''run false''] [Parsed shell_false] failing_shell"
  let ?st = "step ?ev sample_state"
  have p: "pc ?st = PlannerCall" by code_simp
  have r: "replies ?ev (calls ?st) = Parsed shell_false" by code_simp
  have a: "action_reply shell_false (Some (JStr ''shell'')) (Some (JStr ''false'')) (Some (JStr []))"
    by code_simp
  have x: "exec_error (exec ?ev (Suc (calls ?st)) ''false'' (currentDir ?st) (files ?st))"
    by (simp add: scripted_def failing_shell_def)
  have e: "stderr (exec ?ev (Suc (calls ?st)) ''false'' (currentDir ?st) (files ?st)) = ''failed''"
    by (simp add: scripted_def failing_shell_def)
  from shell_failure_uncaught [OF p r a x] show ?thesis
    unfolding e by blast
qed

text \<open>
  The claim as stated (the loop goes on, the failure is appended to the history and another
  reply is requested) is false: after the prompt and the reply, the process has ended with
  the error, the history holds only the system and the user message, and the number of
  completion calls stays at one.
\<close>

theorem shell_failure_continues_counterexample:
  "pc (run (scripted [Line ''run false''] [Parsed shell_false] failing_shell) 2 sample_state)
     = Uncaught (ExecError ''false'' ''failed'')
   \<and> length (message (run (scripted [Line ''run false''] [Parsed shell_false] failing_shell) 2 sample_state)) = 2
   \<and> map role (message (run (scripted [Line ''run false''] [Parsed shell_false] failing_shell) 2 sample_state))
       = [System, User]
   \<and> calls (run (scripted [Line ''run false''] [Parsed shell_false] failing_shell) 7 sample_state) = 1"
  by code_simp

section \<open>Replies outside the protocol\<close>

lemma step_ignored:
  "pc st = PlannerCall \<Longrightarrow> ignored_reply (replies ev (calls st)) \<Longrightarrow>
     step ev st = st\<lparr>calls := Suc (calls st)\<rparr>"
  by (auto simp: step_def inner_body_def ignored_reply_def Let_def
      split: planner_reply.splits sum.splits)

lemma run_ignored:
  "pc st = PlannerCall \<Longrightarrow> \<forall>i. ignored_reply (replies ev (calls st + i)) \<Longrightarrow>
     run ev n st = st\<lparr>calls := calls st + n\<rparr>"
proof (induction n arbitrary: st)
  case 0
  show ?case by simp
next
  case (Suc n)
  from Suc.prems(2) have "ignored_reply (replies ev (calls st + 0))"
    by blast
  then have s: "step ev st = st\<lparr>calls := Suc (calls st)\<rparr>"
    using Suc.prems(1) by (simp add: step_ignored)
  have "\<forall>i. ignored_reply (replies ev (calls (st\<lparr>calls := Suc (calls st)\<rparr>) + i))"
  proof
    fix i
    from Suc.prems(2) have "ignored_reply (replies ev (calls st + Suc i))"
      by blast
    then show "ignored_reply (replies ev (calls (st\<lparr>calls := Suc (calls st)\<rparr>) + i))"
      by simp
  qed
  with Suc.IH [of "st\<lparr>calls := Suc (calls st)\<rparr>"] Suc.prems(1)
  have "run ev n (st\<lparr>calls := Suc (calls st)\<rparr>) = st\<lparr>calls := Suc (calls st) + n\<rparr>"
    by simp
  with s show ?case by simp
qed

text \<open>A reply of the step \<open>exit\<close> is among the ignored ones: the loop does not test for it.\<close>

lemma exit_step_ignored: "ignored_reply (Parsed (JObj [(''step'', JStr ''exit'')]))"
  by code_simp

text \<open>
  Claim C2, as amended. A planner reply that is no valid JSON makes \<^verbatim>\<open>JSON.parse\<close> throw;
  nothing catches the exception, nothing is logged, and the whole loop ends. A reply that
  parses to a value other than \<^verbatim>\<open>null\<close> whose step is missing or is none of \<open>analyze\<close>,
  \<open>convert\<close>, \<open>output\<close> and \<open>action\<close> is ignored without a log: the state is unchanged but
  for the count of calls, and a fresh reply is requested. The number of such retries has no
  bound: as long as the replies are of this kind, the loop keeps calling.
\<close>

theorem protocol_violation:
  "(pc st = PlannerCall \<and> replies ev (calls st) = InvalidJSON \<longrightarrow>
      pc (step ev st) = Uncaught SyntaxError
      \<and> message (step ev st) = message st \<and> console (step ev st) = console st
      \<and> (\<forall>n. run ev n (step ev st) = step ev st))
   \<and> (pc st = PlannerCall \<and> ignored_reply (replies ev (calls st)) \<longrightarrow>
      step ev st = st\<lparr>calls := Suc (calls st)\<rparr>)
   \<and> (pc st = PlannerCall \<and> (\<forall>i. ignored_reply (replies ev (calls st + i))) \<longrightarrow>
      (\<forall>n. run ev n st = st\<lparr>calls := calls st + n\<rparr>))"
proof -
  have "pc (step ev st) = Uncaught SyntaxError \<and> message (step ev st) = message st
        \<and> console (step ev st) = console st \<and> (\<forall>n. run ev n (step ev st) = step ev st)"
    if "pc st = PlannerCall" "replies ev (calls st) = InvalidJSON"
  proof -
    have "step ev st = st\<lparr>calls := Suc (calls st), pc := Uncaught SyntaxError\<rparr>"
      using that by (simp add: step_def inner_body_def)
    then show ?thesis
      by (simp add: run_terminated)
  qed
  then show ?thesis
    using step_ignored [of st ev] run_ignored [of st ev] by blast
qed

text \<open>
  An instance: a planner that answers \<open>{"step": "plan"}\<close> for ever; fifty turns, fifty calls.
\<close>

theorem protocol_violation_witness:
  "run (repeating (Parsed step_plan)) 50 ((sample_state)\<lparr>pc := PlannerCall\<rparr>)
     = (sample_state)\<lparr>pc := PlannerCall, calls := 50\<rparr>"
proof -
  let ?ev = "repeating (Parsed step_plan)"
  let ?st = "(sample_state)\<lparr>pc := PlannerCall\<rparr>"
  have p: "pc ?st = PlannerCall" by simp
  have i: "\<forall>i. ignored_reply (replies ?ev (calls ?st + i))"
    by (simp add: repeating_def ignored_reply_def step_plan_def property_def getProp_def)
  have c: "calls ?st = 0" by (simp add: sample_state_def initial_state_def)
  from protocol_violation [of ?st ?ev] p i have "\<forall>n. run ?ev n ?st = ?st\<lparr>calls := calls ?st + n\<rparr>"
    by blast
  then have "run ?ev 50 ?st = ?st\<lparr>calls := calls ?st + 50\<rparr>"
    by blast
  then show ?thesis
    by (simp add: c)
qed

text \<open>
  The claim as stated (a violation is logged and a fresh reply is requested rather than
  crashing) is false for a reply that is no JSON: the process ends with the syntax error,
  nothing is on the console, and no second call is made.
\<close>

theorem protocol_violation_recovered_counterexample:
  "pc (run (scripted [Line ''hello''] [InvalidJSON] quiet_shell) 2 sample_state) = Uncaught SyntaxError
   \<and> console (run (scripted [Line ''hello''] [InvalidJSON] quiet_shell) 2 sample_state) = []
   \<and> calls (run (scripted [Line ''hello''] [InvalidJSON] quiet_shell) 9 sample_state) = 1"
  by code_simp

section \<open>The length of the history\<close>

lemma step_intermediate:
  assumes p: "pc st = PlannerCall" and i: "intermediate_reply (replies ev (calls st))"
  shows "(pc (step ev st) = PlannerCall \<and> length (message (step ev st)) = Suc (length (message st))
            \<or> (\<exists>e. pc (step ev st) = Uncaught e))
         \<and> calls (step ev st) = Suc (calls st)"
proof -
  from i obtain pr where r: "replies ev (calls st) = Parsed pr"
    and s: "property pr ''step'' = Inr (Some (JStr ''analyze''))
            \<or> property pr ''step'' = Inr (Some (JStr ''convert''))
            \<or> property pr ''step'' = Inr (Some (JStr ''action''))"
    by (auto simp: intermediate_reply_def split: planner_reply.splits)
  from s consider (an) "property pr ''step'' = Inr (Some (JStr ''analyze''))"
    | (co) "property pr ''step'' = Inr (Some (JStr ''convert''))"
    | (ac) "property pr ''step'' = Inr (Some (JStr ''action''))"
    by blast
  then show ?thesis
  proof cases
    case an
    then show ?thesis using p r by (simp add: step_def inner_body_def)
  next
    case co
    then show ?thesis using p r by (simp add: step_def inner_body_def)
  next
    case ac
    then have "step ev st = action ev pr (st\<lparr>calls := Suc (calls st)\<rparr>)"
      using p r by (simp add: step_def inner_body_action)
    then show ?thesis
      using action_outcome [of ev pr "st\<lparr>calls := Suc (calls st)\<rparr>"] p by auto
  qed
qed

lemma run_intermediate:
  "pc st = PlannerCall \<Longrightarrow> \<forall>i<K. intermediate_reply (replies ev (calls st + i)) \<Longrightarrow>
     pc (run ev K st) = PlannerCall \<Longrightarrow>
     length (message (run ev K st)) = length (message st) + K"
proof (induction K arbitrary: st)
  case 0
  show ?case by simp
next
  case (Suc K)
  from Suc.prems(2) have "intermediate_reply (replies ev (calls st + 0))"
    by blast
  then have i0: "intermediate_reply (replies ev (calls st))"
    by simp
  note s = step_intermediate [OF Suc.prems(1) i0]
  have np: "pc (step ev st) = PlannerCall"
  proof (rule ccontr)
    assume "pc (step ev st) \<noteq> PlannerCall"
    with s obtain e where e: "pc (step ev st) = Uncaught e"
      by blast
    then have "run ev K (step ev st) = step ev st"
      by (rule run_terminated)
    with Suc.prems(3) e show False
      by simp
  qed
  with s have l: "length (message (step ev st)) = Suc (length (message st))"
    and c: "calls (step ev st) = Suc (calls st)"
    by auto
  have "\<forall>i<K. intermediate_reply (replies ev (calls (step ev st) + i))"
  proof (intro allI impI)
    fix i assume "i < K"
    then have "Suc i < Suc K" by simp
    with Suc.prems(2) have "intermediate_reply (replies ev (calls st + Suc i))"
      by blast
    then show "intermediate_reply (replies ev (calls (step ev st) + i))"
      by (simp add: c)
  qed
  from Suc.IH [OF np this] Suc.prems(3)
  have "length (message (run ev K (step ev st))) = length (message (step ev st)) + K"
    by simp
  with l show ?case by simp
qed

text \<open>
  Claim C7, as amended. Within one prompt cycle, after the user prompt is ingested and K
  planner replies of the analyze, convert or action step have been processed without an
  exception, the length of the history is its length at the start of the cycle plus 1 (the
  user message) plus K; in the first cycle of a process that is 1 + 1 + K.
\<close>

theorem history_length_in_cycle:
  assumes p: "pc st = AwaitingPrompt"
    and q: "prompts ev (asked st) = Line prompt"
    and ne: "prompt \<noteq> ''exit''"
    and i: "\<forall>i<K. intermediate_reply (replies ev (calls st + i))"
    and c: "pc (run ev (Suc K) st) = PlannerCall"
  shows "length (message (run ev (Suc K) st)) = length (message st) + 1 + K
         \<and> (st = initial_state sp cwd fs \<longrightarrow> length (message (run ev (Suc K) st)) = 1 + 1 + K)"
proof -
  have s: "step ev st = (push \<lparr>role = User, content = Text prompt\<rparr> (st\<lparr>asked := Suc (asked st)\<rparr>))\<lparr>pc := PlannerCall\<rparr>"
    using p q ne by (simp add: step_def outer_body_def)
  have p1: "pc (step ev st) = PlannerCall" by (simp add: s)
  have c1: "calls (step ev st) = calls st" by (simp add: s)
  have l1: "length (message (step ev st)) = length (message st) + 1" by (simp add: s)
  from i have i1: "\<forall>i<K. intermediate_reply (replies ev (calls (step ev st) + i))"
    by (simp add: c1)
  from c have "pc (run ev K (step ev st)) = PlannerCall" by simp
  from run_intermediate [OF p1 i1 this] l1
  have "length (message (run ev (Suc K) st)) = length (message st) + 1 + K"
    by simp
  then show ?thesis
    by (auto simp: initial_state_def)
qed

text \<open>
  An instance: the first cycle, with an analyze, a convert and a write reply.
\<close>

theorem history_length_in_cycle_witness:
  "length (message (run (scripted [Line ''create notes'']
        [Parsed reply_analyze, Parsed reply_convert, Parsed reply_write, Parsed reply_output] quiet_shell)
      4 sample_state)) = 1 + 1 + 3"
proof -
  let ?ev = "scripted [Line ''create notes'']
        [Parsed reply_analyze, Parsed reply_convert, Parsed reply_write, Parsed reply_output] quiet_shell"
  have p: "pc sample_state = AwaitingPrompt" by code_simp
  have q: "prompts ?ev (asked sample_state) = Line ''create notes''" by code_simp
  have ne: "''create notes'' \<noteq> ''exit''" by simp
  have c0: "calls sample_state = 0" by code_simp
  have i0: "intermediate_reply (replies ?ev 0)" by code_simp
  have i1: "intermediate_reply (replies ?ev 1)" by code_simp
  have i2: "intermediate_reply (replies ?ev 2)" by code_simp
  have i: "\<forall>i<3. intermediate_reply (replies ?ev (calls sample_state + i))"
  proof (intro allI impI)
    fix i :: nat assume "i < 3"
    then have "i = 0 \<or> i = 1 \<or> i = 2" by arith
    with i0 i1 i2 show "intermediate_reply (replies ?ev (calls sample_state + i))"
      unfolding c0 by auto
  qed
  have c: "pc (run ?ev (Suc 3) sample_state) = PlannerCall" by code_simp
  from history_length_in_cycle [OF p q ne i c, of "''You are an Expert Developer.''" "[''home'']" sample_files]
  have "length (message (run ?ev (Suc 3) sample_state)) = 1 + 1 + 3"
    by (simp add: sample_state_def)
  then show ?thesis
    by (simp add: eval_nat_numeral)
qed

text \<open>
  The claim as stated (1 + 1 + K in every cycle) is false in a second cycle: the first cycle
  ends with two messages in the history, and after the second prompt and one analyze reply
  the history has four messages, not 1 + 1 + 1.
\<close>

theorem history_length_later_cycle_counterexample:
  "pc (run (scripted [Line ''first'', Line ''second''] [Parsed reply_output, Parsed reply_analyze] quiet_shell)
         2 sample_state) = AwaitingPrompt
   \<and> length (message (run (scripted [Line ''first'', Line ''second''] [Parsed reply_output, Parsed reply_analyze] quiet_shell)
         2 sample_state)) = 2
   \<and> pc (run (scripted [Line ''first'', Line ''second''] [Parsed reply_output, Parsed reply_analyze] quiet_shell)
         4 sample_state) = PlannerCall
   \<and> length (message (run (scripted [Line ''first'', Line ''second''] [Parsed reply_output, Parsed reply_analyze] quiet_shell)
         4 sample_state)) = 4
   \<and> (4::nat) \<noteq> 1 + 1 + 1"
  by code_simp

section \<open>Action replies without a task\<close>



section \<open>Reading a path that does not exist\<close>

text \<open>
  Claim C5, as amended. For every path whose resolved target does not exist, a \<open>read\<close> task
  returns \<^verbatim>\<open>null\<close>; for every path whose trimmed form resolves to a target that does not
  exist, a \<open>contains\<close> task returns \<^verbatim>\<open>false\<close>. Neither throws, \<open>executeTask\<close> returns these
  values, and the loop treats neither as an error: it appends the assistant message and
  requests the next reply.
\<close>

theorem read_contains_absent:
  "(\<not> existsSync (files st) (resolve (currentDir st) p) \<longrightarrow>
      fst (readFile (JStr p) st) = Returned JNull
      \<and> fst (executeTask ev (JStr ''read'') (JStr p) c st) = Returned (Some JNull)
      \<and> (pc st = PlannerCall \<and> replies ev (calls st) = Parsed pr
           \<and> action_reply pr (Some (JStr ''read'')) (Some (JStr p)) fc \<longrightarrow>
         pc (step ev st) = PlannerCall \<and> message (step ev st) = message st @ [assistant pr]))
   \<and> (\<not> existsSync (files st) (resolve (currentDir st) (trim p)) \<longrightarrow>
      fst (fileContains ev (JStr p) c st) = Returned False
      \<and> fst (executeTask ev (JStr ''contains'') (JStr p) c st) = Returned (Some (JBool False))
      \<and> (pc st = PlannerCall \<and> replies ev (calls st) = Parsed pr
           \<and> action_reply pr (Some (JStr ''contains'')) (Some (JStr p)) fc \<longrightarrow>
         pc (step ev st) = PlannerCall \<and> message (step ev st) = message st @ [assistant pr]))"
proof (intro conjI impI)
  assume n: "\<not> existsSync (files st) (resolve (currentDir st) p)"
  then show "fst (readFile (JStr p) st) = Returned JNull"
    by (simp add: readFile_def Let_def)
  from n show "fst (executeTask ev (JStr ''read'') (JStr p) c st) = Returned (Some JNull)"
    by (simp add: executeTask_def returning_def readFile_def Let_def)
next
  assume n: "\<not> existsSync (files st) (resolve (currentDir st) p)"
    and h: "pc st = PlannerCall \<and> replies ev (calls st) = Parsed pr
           \<and> action_reply pr (Some (JStr ''read'')) (Some (JStr p)) fc"
  let ?st = "st\<lparr>calls := Suc (calls st)\<rparr>"
  have s: "step ev st = action ev pr ?st"
    using h by (simp add: step_def inner_body_action action_reply_def)
  have "\<exists>st'. executeTask ev (JStr ''read'') (JStr p) (or_empty fc) ?st = (Returned (Some JNull), st')
          \<and> keeps ?st st'"
    using n by (simp add: executeTask_def returning_def readFile_def Let_def)
  then obtain st' where
    e: "executeTask ev (JStr ''read'') (JStr p) (or_empty fc) ?st = (Returned (Some JNull), st')"
    and k: "keeps ?st st'"
    by blast
  from h have a: "action_reply pr (Some (JStr ''read'')) (Some (JStr p)) fc"
    by simp
  have "action ev pr ?st = push (assistant pr) st'"
    by (rule action_returned [OF a _ e]) simp
  with s k h show "pc (step ev st) = PlannerCall" by (simp add: keeps_def)
  from \<open>action ev pr ?st = push (assistant pr) st'\<close> s k
  show "message (step ev st) = message st @ [assistant pr]" by (simp add: keeps_def)
next
  assume n: "\<not> existsSync (files st) (resolve (currentDir st) (trim p))"
  then show "fst (fileContains ev (JStr p) c st) = Returned False"
    by (simp add: fileContains_def Let_def)
  from n show "fst (executeTask ev (JStr ''contains'') (JStr p) c st) = Returned (Some (JBool False))"
    by (simp add: executeTask_def returning_def fileContains_def Let_def)
next
  assume n: "\<not> existsSync (files st) (resolve (currentDir st) (trim p))"
    and h: "pc st = PlannerCall \<and> replies ev (calls st) = Parsed pr
           \<and> action_reply pr (Some (JStr ''contains'')) (Some (JStr p)) fc"
  let ?st = "st\<lparr>calls := Suc (calls st)\<rparr>"
  have s: "step ev st = action ev pr ?st"
    using h by (simp add: step_def inner_body_action action_reply_def)
  have e: "executeTask ev (JStr ''contains'') (JStr p) (or_empty fc) ?st
            = (Returned (Some (JBool False)), ?st)"
    using n by (simp add: executeTask_def returning_def fileContains_def Let_def)
  from h have a: "action_reply pr (Some (JStr ''contains'')) (Some (JStr p)) fc"
    by simp
  have f: "action ev pr ?st = push (assistant pr) ?st"
    by (rule action_returned [OF a _ e]) simp
  with s h show "pc (step ev st) = PlannerCall" by simp
  from f s show "message (step ev st) = message st @ [assistant pr]" by simp
qed

text \<open>
  An instance: \<open>missing.txt\<close> in the sample directory.
\<close>

theorem read_contains_absent_witness:
  "fst (readFile (JStr ''missing.txt'') sample_state) = Returned JNull
   \<and> fst (fileContains (repeating InvalidJSON) (JStr '' missing.txt '') (JStr ''Hello'') sample_state)
       = Returned False
   \<and> pc (step (repeating (Parsed reply_read_missing)) (sample_state\<lparr>pc := PlannerCall\<rparr>)) = PlannerCall"
proof -
  let ?ev = "repeating (Parsed reply_read_missing)"
  let ?st = "sample_state\<lparr>pc := PlannerCall\<rparr>"
  have n1: "\<not> existsSync (files sample_state) (resolve (currentDir sample_state) ''missing.txt'')"
    by code_simp
  have n2: "\<not> existsSync (files sample_state) (resolve (currentDir sample_state) (trim '' missing.txt ''))"
    by code_simp
  have n3: "\<not> existsSync (files ?st) (resolve (currentDir ?st) ''missing.txt'')"
    using n1 by simp
  have h: "pc ?st = PlannerCall \<and> replies ?ev (calls ?st) = Parsed reply_read_missing
           \<and> action_reply reply_read_missing (Some (JStr ''read'')) (Some (JStr ''missing.txt'')) (Some (JStr []))"
    by (simp add: repeating_def action_reply_def reply_read_missing_def property_def getProp_def)
  from read_contains_absent [where st = sample_state and p = "''missing.txt''"] n1
  have 1: "fst (readFile (JStr ''missing.txt'') sample_state) = Returned JNull"
    by blast
  from read_contains_absent [where st = sample_state and p = "'' missing.txt ''"
      and ev = "repeating InvalidJSON" and c = "JStr ''Hello''"] n2
  have 2: "fst (fileContains (repeating InvalidJSON) (JStr '' missing.txt '') (JStr ''Hello'') sample_state)
       = Returned False"
    by blast
  from read_contains_absent [where st = ?st and p = "''missing.txt''" and ev = ?ev
      and pr = reply_read_missing and fc = "Some (JStr [])"] n3 h
  have 3: "pc (step ?ev ?st) = PlannerCall"
    by blast
  from 1 2 3 show ?thesis by blast
qed

text \<open>
  The claim as stated (\<open>contains\<close> returns \<^verbatim>\<open>false\<close> whenever the resolved target of the
  path does not exist) is false for a path with white space at an end: nothing exists at
  \<open>/home/ App.jsx\<close> and \<open>read\<close> returns \<^verbatim>\<open>null\<close>, but \<open>contains\<close> tests \<open>/home/App.jsx\<close>
  and returns \<^verbatim>\<open>true\<close>.
\<close>

theorem contains_untrimmed_absent_counterexample:
  "\<not> existsSync (files sample_state) (resolve (currentDir sample_state) '' App.jsx'')
   \<and> fst (readFile (JStr '' App.jsx'') sample_state) = Returned JNull
   \<and> fst (fileContains (repeating InvalidJSON) (JStr '' App.jsx'') (JStr ''Hello'') sample_state)
       = Returned True"
  by code_simp

end
